theory Spec2Isabelle
  imports Main "HOL-Library.Sublist" "HOL-Library.Signed_Division"
begin

section \<open>The two program files\<close>

text \<open>
  The repository holds two versions of the TIC-80 Pro manager, each a complete
  \<^verbatim>\<open>package main\<close>: \<^verbatim>\<open>src/main.go\<close> (banner "version 1.1.2837") and
  \<^verbatim>\<open>src/unnamed/part_000\<close> (banner "version 1.2.3019", which adds the log viewport).
  Both are embedded. A definition taken from \<^verbatim>\<open>main.go\<close> keeps the source's name; the
  definition of the same name taken from \<^verbatim>\<open>part_000\<close> carries the suffix \<open>2\<close>.

  Go's \<^verbatim>\<open>int\<close> is modelled as \<open>int\<close>; where the source computes without a guard that
  bounds the operands, the 64-bit wrap-around is written out (\<open>int64\<close>). An \<^verbatim>\<open>error\<close>
  value is the text of its \<^verbatim>\<open>Error()\<close>, \<open>None\<close> for \<^verbatim>\<open>nil\<close>. A run-time panic is a value
  of type \<open>panic\<close>: an index out of range in the program's own slices, or slice bounds out
  of range inside a call of the library.
\<close>

section \<open>Data model\<close>

definition int64 :: "int \<Rightarrow> int" where
  "int64 x = (x + 2 ^ 63) mod 2 ^ 64 - 2 ^ 63"

datatype panic = IndexOutOfRange | SliceBoundsOutOfRange

definition index :: "'a list \<Rightarrow> int \<Rightarrow> panic + 'a" where
  \<comment> \<open>Go's \<^verbatim>\<open>xs[i]\<close> on a slice: a run-time panic outside \<open>0 \<le> i < len(xs)\<close>.\<close>
  "index xs i = (if 0 \<le> i \<and> i < int (length xs) then Inr (xs ! nat i) else Inl IndexOutOfRange)"

record installStep =
  desc :: string
  cmd :: string

datatype state = stateMenu | stateRunning | stateDone

text \<open>
  The library types \<^verbatim>\<open>spinner.Model\<close> and \<^verbatim>\<open>viewport.Model\<close> belong to the bubbles
  package, not to this repository. The fields the program assigns are record fields;
  everything else of the library's state is the opaque component \<open>sp_inner\<close>, \<open>vp_inner\<close>.
\<close>

record spinner_Model =
  sp_Spinner :: string
  sp_Style :: string
  sp_inner :: nat

record viewport_Model =
  vp_Width :: int
  vp_Height :: int
  vp_Style :: string
  vp_inner :: nat

record model =
  width :: int
  height :: int
  cursor :: int
  choices :: "string list"
  state :: state
  spinner :: spinner_Model
  steps :: "installStep list"
  currentStep :: int
  logMsg :: string
  err :: "string option"

text \<open>\<^verbatim>\<open>part_000\<close>: the same struct with the three terminal fields added.\<close>

record model2 = model +
  viewport :: viewport_Model
  showTerm :: bool
  termContent :: string

text \<open>
  Messages. \<open>KeyMsg k\<close> carries the result of \<^verbatim>\<open>msg.String()\<close>; \<open>TickMsg\<close> is
  \<^verbatim>\<open>spinner.TickMsg\<close> with its payload opaque; \<open>stepFinishedMsg\<close> is the completion
  message of \<^verbatim>\<open>main.go\<close>, \<open>stepLogAndFinishMsg\<close> that of \<^verbatim>\<open>part_000\<close>; \<open>OtherMsg\<close> is
  a message of any other type, for which no case of the type switch matches.
\<close>

datatype tea_Msg =
    WindowSizeMsg int int
  | KeyMsg string
  | TickMsg nat
  | stepFinishedMsg "string option"
  | stepLogAndFinishMsg string "string option"
  | OtherMsg nat

text \<open>
  Commands (\<^verbatim>\<open>tea.Cmd\<close>): \<^verbatim>\<open>nil\<close>, \<^verbatim>\<open>tea.Quit\<close>, \<^verbatim>\<open>m.spinner.Tick\<close>, the closures
  returned by \<^verbatim>\<open>runStep(step)\<close> and \<^verbatim>\<open>runStepStreamed(step)\<close>, a command returned by a
  library call, and \<^verbatim>\<open>tea.Batch(...)\<close>.
\<close>

datatype tea_Cmd =
    Cmd_nil
  | Cmd_Quit
  | Cmd_Tick
  | Cmd_runStep installStep
  | Cmd_runStepStreamed installStep
  | Cmd_lib nat
  | Cmd_Batch "tea_Cmd list"

text \<open>
  The library calls the two \<^verbatim>\<open>Update\<close> functions make are parameters: a library call
  returns its new state and possibly a command of the library's own. The two calls that
  lay the content out in the viewport, \<^verbatim>\<open>SetContent\<close> and \<^verbatim>\<open>GotoBottom\<close>, slice the lines of
  the content and can panic there, so they return a panic or the new viewport.
\<close>

record lib =
  spinner_New :: spinner_Model
  spinner_Update :: "spinner_Model \<Rightarrow> tea_Msg \<Rightarrow> spinner_Model \<times> nat option"
  viewport_New :: "int \<Rightarrow> int \<Rightarrow> viewport_Model"
  viewport_Update :: "viewport_Model \<Rightarrow> tea_Msg \<Rightarrow> viewport_Model \<times> nat option"
  viewport_SetContent :: "viewport_Model \<Rightarrow> string \<Rightarrow> panic + viewport_Model"
  viewport_GotoBottom :: "viewport_Model \<Rightarrow> panic + viewport_Model"
  style_Render :: "string \<Rightarrow> string"

fun lib_cmd :: "nat option \<Rightarrow> tea_Cmd" where
  "lib_cmd None = Cmd_nil"
| "lib_cmd (Some c) = Cmd_lib c"

text \<open>
  What a command schedules: \<^verbatim>\<open>nil\<close> schedules nothing and a batch schedules what its
  members schedule.
\<close>

fun actions :: "tea_Cmd \<Rightarrow> tea_Cmd list" where
  "actions Cmd_nil = []"
| "actions (Cmd_Batch cs) = concat (map actions cs)"
| "actions c = [c]"

section \<open>The step plan\<close>

definition DEPS_CMD :: string where
  "DEPS_CMD = ''dnf -y install @development-tools''"

definition DEPS_PKGS :: string where
  "DEPS_PKGS = ''dnf -y install gcc gcc-c++ cmake ruby rubygem-rake libglvnd-devel libglvnd-gles freeglut-devel alsa-lib-devel git libX11-devel libXext-devel libXcursor-devel libXi-devel libXrandr-devel''"

definition DEPS_PKGS2 :: string where
  "DEPS_PKGS2 = ''dnf -y install gcc gcc-c++ cmake ruby rubygem-rake libglvnd-devel libglvnd-gles freeglut-devel alsa-lib-devel git libX11-devel libXext-devel libXcursor-devel libXi-devel libXrandr-devel mesa-libGLU-devel curl''"

definition step :: "string \<Rightarrow> string \<Rightarrow> installStep" where
  \<comment> \<open>the composite literal \<^verbatim>\<open>{d, c}\<close> of type \<^verbatim>\<open>installStep\<close>\<close>
  "step d c = \<lparr>desc = d, cmd = c\<rparr>"

definition getSteps :: "int \<Rightarrow> installStep list" where
  "getSteps choice =
    (if choice = 0 \<or> choice = 1 then
       [step ''Installing Group Tools...'' DEPS_CMD,
        step ''Installing Libraries (X11/GL/Audio)...'' DEPS_PKGS,
        step ''Cleaning previous builds...'' ''rm -rf /tmp/tic80-build'',
        step ''Creating build directory...'' ''mkdir -p /tmp/tic80-build'',
        step ''Cloning Repository...'' ''git clone --recursive https://github.com/nesbox/TIC-80.git /tmp/tic80-build/TIC-80'',
        step ''Configuring CMake...'' ''mkdir -p /tmp/tic80-build/TIC-80/build && cd /tmp/tic80-build/TIC-80/build && cmake -DBUILD_PRO=On ..'',
        step ''Compiling (Using all cores)...'' ''cd /tmp/tic80-build/TIC-80/build && make -j$(nproc)'',
        step ''Installing to /usr/local/bin...'' ''cd /tmp/tic80-build/TIC-80/build && make install'',
        step ''Cleaning up...'' ''rm -rf /tmp/tic80-build'']
     else if choice = 2 then
       [step ''Removing Binary...'' ''rm -f /usr/local/bin/tic80'',
        step ''Removing Desktop Entry...'' ''rm -f /usr/local/share/applications/tic80.desktop'',
        step ''Removing Icon...'' ''rm -f /usr/local/share/icons/hicolor/scalable/apps/tic80.svg'']
     else [])"

definition buildDir :: string where
  "buildDir = ''/var/tmp/tic80-build''"

definition cmakeFlags :: string where
  "cmakeFlags = ''-DCMAKE_C_FLAGS='' @ [CHR 0x22] @ ''-DTIC80_PRO'' @ [CHR 0x22] @
     '' -DCMAKE_CXX_FLAGS='' @ [CHR 0x22] @ ''-DTIC80_PRO'' @ [CHR 0x22] @
     '' -DBUILD_PRO=On -DBUILD_WITH_ALL=On -DBUILD_SDL=On -DBUILD_SDLGPU=On -DBUILD_STATIC=On''"

definition getSteps2 :: "int \<Rightarrow> installStep list" where
  "getSteps2 choice =
    (if choice = 0 \<or> choice = 1 then
       [step ''Installing Group Tools...'' DEPS_CMD,
        step ''Installing Deps (GLU/Curl/X11)...'' DEPS_PKGS2,
        step ''Cleaning previous builds...'' (''rm -rf '' @ buildDir),
        step ''Creating build directory...'' (''mkdir -p '' @ buildDir),
        step ''Cloning Repository...'' (''git clone --recursive https://github.com/nesbox/TIC-80.git '' @ buildDir @ ''/TIC-80''),
        step ''Patching SDL2...'' (''cd '' @ buildDir @ ''/TIC-80/vendor/sdl2 && git fetch --tags && git checkout release-2.32.8''),
        step ''Configuring CMake (Forcing Pro)...'' (''mkdir -p '' @ buildDir @ ''/TIC-80/build && cd '' @ buildDir @ ''/TIC-80/build && cmake '' @ cmakeFlags @ '' ..''),
        step ''Compiling...'' (''cd '' @ buildDir @ ''/TIC-80/build && make -j$(nproc)''),
        step ''Installing...'' (''cd '' @ buildDir @ ''/TIC-80/build && make install''),
        step ''Cleaning up...'' (''rm -rf '' @ buildDir)]
     else if choice = 2 then
       [step ''Removing Binary...'' ''rm -f /usr/local/bin/tic80'',
        step ''Removing Desktop...'' ''rm -f /usr/local/share/applications/tic80.desktop'',
        step ''Removing Icon...'' ''rm -f /usr/local/share/icons/hicolor/scalable/apps/tic80.svg'']
     else [])"

section \<open>The command runner\<close>

text \<open>
  \<^verbatim>\<open>cmd.CombinedOutput()\<close> runs the shell outside the program; its result, the merged
  output and the error (\<open>None\<close> when the command exits with status 0), is the outcome the
  closure is given. \<open>runStep\<close> and \<open>runStepStreamed\<close> are the bodies of the closures: the
  message each delivers for an outcome.
\<close>

type_synonym outcome = "string \<times> string option"

definition step_error :: "installStep \<Rightarrow> string \<Rightarrow> string" where
  \<comment> \<open>\<^verbatim>\<open>fmt.Errorf("Step '%s' failed:\\n%s", step.desc, string(out))\<close>\<close>
  "step_error st out = ''Step '' @ [CHR 0x27] @ desc st @ [CHR 0x27] @ '' failed:'' @ [CHR 0x0A] @ out"

definition runStep :: "installStep \<Rightarrow> outcome \<Rightarrow> tea_Msg" where
  "runStep st oc =
    (case snd oc of
       Some e \<Rightarrow> stepFinishedMsg (Some (step_error st (fst oc)))
     | None \<Rightarrow> stepFinishedMsg None)"

definition runStepStreamed :: "installStep \<Rightarrow> outcome \<Rightarrow> tea_Msg" where
  "runStepStreamed st oc = stepLogAndFinishMsg (fst oc) (snd oc)"

section \<open>The state machine\<close>

text \<open>
  \<^verbatim>\<open>initialModel\<close>: the fields the literal does not name have Go's zero values. The
  spinner's kind and the two styles are named by strings; their rendering is outside the
  model.
\<close>

definition initialModel :: "lib \<Rightarrow> model" where
  "initialModel L =
    \<lparr>width = 0, height = 0, cursor = 0,
     choices = [''Install TIC-80 Pro'', ''Upgrade (Rebuild)'', ''Uninstall'', ''Exit''],
     state = stateMenu,
     spinner = (spinner_New L)\<lparr>sp_Spinner := ''MiniDot'', sp_Style := ''ColorRed on ColorVoid''\<rparr>,
     steps = [], currentStep = 0, logMsg = ''type help for help'', err = None\<rparr>"

definition initialModel2 :: "lib \<Rightarrow> model2" where
  "initialModel2 L =
    \<lparr>width = 0, height = 0, cursor = 0,
     choices = [''Install TIC-80 Pro'', ''Upgrade (Rebuild)'', ''Uninstall'', ''Exit''],
     state = stateMenu,
     spinner = (spinner_New L)\<lparr>sp_Spinner := ''MiniDot'', sp_Style := ''ColorRed on ColorVoid''\<rparr>,
     steps = [], currentStep = 0, logMsg = ''type help for help'', err = None,
     viewport = (viewport_New L 0 0)\<lparr>vp_Style := ''styleTermBox''\<rparr>,
     showTerm = False, termContent = ''''\<rparr>"

text \<open>\<^verbatim>\<open>main.go\<close>, \<^verbatim>\<open>Update\<close>, the case \<^verbatim>\<open>tea.KeyMsg\<close>.\<close>

definition Update_key :: "model \<Rightarrow> string \<Rightarrow> panic + model \<times> tea_Cmd" where
  "Update_key m k =
    (if state m = stateMenu then
       (if k = ''ctrl+c'' \<or> k = ''q'' then Inr (m, Cmd_Quit)
        else if k = ''up'' \<or> k = ''k'' then
          Inr (if cursor m > 0 then m\<lparr>cursor := cursor m - 1\<rparr> else m, Cmd_nil)
        else if k = ''down'' \<or> k = ''j'' then
          Inr (if cursor m < int (length (choices m)) - 1 then m\<lparr>cursor := cursor m + 1\<rparr> else m,
               Cmd_nil)
        else if k = ''enter'' then
          (if cursor m = 3 then Inr (m, Cmd_Quit)
           else
             (let m' = m\<lparr>state := stateRunning, currentStep := 0, err := None,
                         steps := getSteps (cursor m)\<rparr>
              in case index (steps m') 0 of
                   Inl p \<Rightarrow> Inl p
                 | Inr s \<Rightarrow> Inr (m', Cmd_Batch [Cmd_Tick, Cmd_runStep s])))
        else Inr (m, Cmd_nil))
     else if state m = stateDone then
       (if k = ''enter'' \<or> k = ''q'' then Inr (m, Cmd_Quit) else Inr (m, Cmd_nil))
     else Inr (m, Cmd_nil))"

text \<open>\<^verbatim>\<open>main.go\<close>, \<^verbatim>\<open>Update\<close>, the case \<^verbatim>\<open>stepFinishedMsg\<close>.\<close>

definition Update_finished :: "model \<Rightarrow> string option \<Rightarrow> panic + model \<times> tea_Cmd" where
  "Update_finished m e =
    (case e of
       Some er \<Rightarrow> Inr (m\<lparr>state := stateDone, err := Some er\<rparr>, Cmd_nil)
     | None \<Rightarrow>
         (let m1 = m\<lparr>currentStep := int64 (currentStep m + 1)\<rparr>
          in if currentStep m1 \<ge> int (length (steps m1))
             then Inr (m1\<lparr>state := stateDone, logMsg := ''Process Completed.''\<rparr>, Cmd_nil)
             else (case index (steps m1) (currentStep m1) of
                     Inl p \<Rightarrow> Inl p
                   | Inr s \<Rightarrow> Inr (m1, Cmd_runStep s))))"

definition Update :: "lib \<Rightarrow> model \<Rightarrow> tea_Msg \<Rightarrow> panic + model \<times> tea_Cmd" where
  "Update L m msg =
    (case msg of
       WindowSizeMsg w h \<Rightarrow> Inr (m\<lparr>width := w, height := h\<rparr>, Cmd_nil)
     | KeyMsg k \<Rightarrow> Update_key m k
     | TickMsg t \<Rightarrow>
         (if state m = stateRunning
          then (let (sp, c) = spinner_Update L (spinner m) msg
                in Inr (m\<lparr>spinner := sp\<rparr>, lib_cmd c))
          else Inr (m, Cmd_nil))
     | stepFinishedMsg e \<Rightarrow> Update_finished m e
     | _ \<Rightarrow> Inr (m, Cmd_nil))"

text \<open>
  \<^verbatim>\<open>part_000\<close>, \<^verbatim>\<open>Update\<close>: the statements after the type switch, reached by every case
  that does not return: the viewport sees the message and the commands are batched.
\<close>

definition Update2_tail :: "lib \<Rightarrow> model2 \<Rightarrow> tea_Msg \<Rightarrow> tea_Cmd list \<Rightarrow> panic + model2 \<times> tea_Cmd" where
  "Update2_tail L m msg cmds =
    (let (vp, c) = viewport_Update L (viewport m) msg
     in Inr (m\<lparr>viewport := vp\<rparr>, Cmd_Batch (cmds @ [lib_cmd c])))"

definition Update2_key :: "lib \<Rightarrow> model2 \<Rightarrow> string \<Rightarrow> panic + model2 \<times> tea_Cmd" where
  "Update2_key L m k =
    (if k = ''ctrl+c'' \<or> k = ''q'' then Inr (m, Cmd_Quit)
     else if k = ''tab'' \<or> k = '' '' then Inr (m\<lparr>showTerm := \<not> showTerm m\<rparr>, Cmd_nil)
     else if k = ''up'' \<or> k = ''k'' then
       Update2_tail L (if state m = stateMenu \<and> cursor m > 0 then m\<lparr>cursor := cursor m - 1\<rparr> else m)
         (KeyMsg k) []
     else if k = ''down'' \<or> k = ''j'' then
       Update2_tail L
         (if state m = stateMenu \<and> cursor m < int (length (choices m)) - 1
          then m\<lparr>cursor := cursor m + 1\<rparr> else m)
         (KeyMsg k) []
     else if k = ''enter'' then
       (if state m = stateMenu then
          (if cursor m = 3 then Inr (m, Cmd_Quit)
           else
             (let m' = m\<lparr>state := stateRunning, currentStep := 0, err := None,
                         termContent := '''', steps := getSteps2 (cursor m)\<rparr>
              in case index (steps m') 0 of
                   Inl p \<Rightarrow> Inl p
                 | Inr s \<Rightarrow> Inr (m', Cmd_Batch [Cmd_Tick, Cmd_runStepStreamed s])))
        else if state m = stateDone then Inr (m, Cmd_Quit)
        else Update2_tail L m (KeyMsg k) [])
     else Update2_tail L m (KeyMsg k) [])"

text \<open>
  \<^verbatim>\<open>part_000\<close>, \<^verbatim>\<open>Update\<close>, the case \<^verbatim>\<open>stepLogAndFinishMsg\<close>. \<open>Update2_show\<close> is its pair
  of statements \<^verbatim>\<open>m.viewport.SetContent(styleTermText.Render(m.termContent))\<close> and
  \<^verbatim>\<open>m.viewport.GotoBottom()\<close>; a panic of either call ends \<^verbatim>\<open>Update\<close>.
\<close>

definition Update2_show :: "lib \<Rightarrow> viewport_Model \<Rightarrow> string \<Rightarrow> panic + viewport_Model" where
  "Update2_show L vp content =
    (case viewport_SetContent L vp (style_Render L content) of
       Inl p \<Rightarrow> Inl p
     | Inr vp1 \<Rightarrow> viewport_GotoBottom L vp1)"

definition Update2_finished :: "lib \<Rightarrow> model2 \<Rightarrow> string \<Rightarrow> string option \<Rightarrow> panic + model2 \<times> tea_Cmd" where
  "Update2_finished L m out e =
    (case index (steps m) (currentStep m) of
       Inl p \<Rightarrow> Inl p
     | Inr st \<Rightarrow>
         (let cmdName = desc st;
              m1 = m\<lparr>termContent := termContent m @ ''>>> '' @ cmdName @ [CHR 0x0A] @ out @ [CHR 0x0A]\<rparr>
          in case Update2_show L (viewport m1) (termContent m1) of
               Inl p \<Rightarrow> Inl p
             | Inr vp \<Rightarrow>
                 (let m2 = m1\<lparr>viewport := vp\<rparr>
                  in case e of
                       Some er \<Rightarrow> Inr (m2\<lparr>state := stateDone, err := Some er\<rparr>, Cmd_nil)
                     | None \<Rightarrow>
                         (let m3 = m2\<lparr>currentStep := int64 (currentStep m2 + 1)\<rparr>
                          in if currentStep m3 \<ge> int (length (steps m3))
                             then Inr (m3\<lparr>state := stateDone, logMsg := ''Process Completed.''\<rparr>, Cmd_nil)
                             else (case index (steps m3) (currentStep m3) of
                                     Inl p \<Rightarrow> Inl p
                                   | Inr s \<Rightarrow> Inr (m3, Cmd_runStepStreamed s))))))"

definition Update2 :: "lib \<Rightarrow> model2 \<Rightarrow> tea_Msg \<Rightarrow> panic + model2 \<times> tea_Cmd" where
  "Update2 L m msg =
    (case msg of
       WindowSizeMsg w h \<Rightarrow>
         Update2_tail L
           (m\<lparr>width := w, height := h,
              viewport := (viewport m)\<lparr>vp_Width := int64 (w - 4), vp_Height := h sdiv 3\<rparr>\<rparr>)
           msg []
     | KeyMsg k \<Rightarrow> Update2_key L m k
     | TickMsg t \<Rightarrow>
         (if state m = stateRunning
          then (let (sp, c) = spinner_Update L (spinner m) msg
                in Update2_tail L (m\<lparr>spinner := sp\<rparr>) msg [lib_cmd c])
          else Update2_tail L m msg [])
     | stepLogAndFinishMsg out e \<Rightarrow> Update2_finished L m out e
     | _ \<Rightarrow> Update2_tail L m msg [])"

section \<open>The program's entry point\<close>

text \<open>
  \<^verbatim>\<open>main\<close> as the trace of its effects and its exit status. Its inputs are the effective
  user id and the error \<^verbatim>\<open>p.Run()\<close> returns (\<open>None\<close> for \<^verbatim>\<open>nil\<close>); \<^verbatim>\<open>os.Exit(1)\<close> ends
  the trace with status 1, returning from \<^verbatim>\<open>main\<close> with status 0.
\<close>

datatype 'm effect = Print string | NewProgram 'm | Run

definition root_error :: string where
  "root_error = ''Error: This program must be run as root (sudo).'' @ [CHR 0x0A]"

definition main_body :: "'m \<Rightarrow> int \<Rightarrow> string option \<Rightarrow> 'm effect list \<times> int" where
  "main_body m0 euid run_err =
    (if euid \<noteq> 0 then ([Print root_error], 1)
     else (case run_err of
             Some e \<Rightarrow> ([NewProgram m0, Run, Print (''Error: '' @ e)], 1)
           | None \<Rightarrow> ([NewProgram m0, Run], 0)))"

definition main :: "lib \<Rightarrow> int \<Rightarrow> string option \<Rightarrow> model effect list \<times> int" where
  "main L = main_body (initialModel L)"

definition main2 :: "lib \<Rightarrow> int \<Rightarrow> string option \<Rightarrow> model2 effect list \<times> int" where
  "main2 L = main_body (initialModel2 L)"

section \<open>The runtime around \<open>Update\<close>\<close>

text \<open>
  The bubbletea runtime calls \<^verbatim>\<open>Update\<close> once per message and runs the returned command;
  the message a step's closure returns comes back as a later message. \<open>started c\<close> are the
  steps whose closures the command \<open>c\<close> starts.
\<close>

fun step_of :: "tea_Cmd \<Rightarrow> installStep list" where
  "step_of (Cmd_runStep s) = [s]"
| "step_of (Cmd_runStepStreamed s) = [s]"
| "step_of _ = []"

definition started :: "tea_Cmd \<Rightarrow> installStep list" where
  "started c = concat (map step_of (actions c))"

text \<open>
  A message that the terminal, the spinner or the library sends: any message but a
  step's completion, which only a started closure sends.
\<close>

fun external :: "tea_Msg \<Rightarrow> bool" where
  "external (stepFinishedMsg e) = False"
| "external (stepLogAndFinishMsg out e) = False"
| "external msg = True"

text \<open>\<^verbatim>\<open>Init\<close>, the same in both versions: the first command is the spinner's tick.\<close>

definition Init :: "'a model_scheme \<Rightarrow> tea_Cmd" where
  "Init m = Cmd_Tick"

text \<open>
  The configurations the program reaches: the model together with the steps in flight
  (started, completion not yet delivered). The program starts with the initial model and
  no step in flight, as the command of \<open>Init\<close> starts none. A configuration \<open>(m, fl)\<close>
  moves by an external message, or by the completion of a step in flight with any
  outcome.
\<close>

inductive reachable :: "lib \<Rightarrow> model \<times> installStep list \<Rightarrow> bool" for L :: lib where
  r_init: "reachable L (initialModel L, [])"
| r_event: "reachable L (m, fl) \<Longrightarrow> external msg \<Longrightarrow> Update L m msg = Inr (m', c)
     \<Longrightarrow> reachable L (m', fl @ started c)"
| r_done: "reachable L (m, fl) \<Longrightarrow> s \<in> set fl \<Longrightarrow> Update L m (runStep s oc) = Inr (m', c)
     \<Longrightarrow> reachable L (m', remove1 s fl @ started c)"

inductive reachable2 :: "lib \<Rightarrow> model2 \<times> installStep list \<Rightarrow> bool" for L :: lib where
  r2_init: "reachable2 L (initialModel2 L, [])"
| r2_event: "reachable2 L (m, fl) \<Longrightarrow> external msg \<Longrightarrow> Update2 L m msg = Inr (m', c)
     \<Longrightarrow> reachable2 L (m', fl @ started c)"
| r2_done: "reachable2 L (m, fl) \<Longrightarrow> s \<in> set fl \<Longrightarrow> Update2 L m (runStepStreamed s oc) = Inr (m', c)
     \<Longrightarrow> reachable2 L (m', remove1 s fl @ started c)"

text \<open>
  One run, driven by the outcomes of the commands in the order they finish: the step the
  last command started is executed with the next outcome and its message is given to
  \<open>upd\<close>. The result is the model at the end and the steps that were executed, in order.
\<close>

fun drive :: "('m \<Rightarrow> tea_Msg \<Rightarrow> panic + 'm \<times> tea_Cmd) \<Rightarrow> (installStep \<Rightarrow> outcome \<Rightarrow> tea_Msg)
    \<Rightarrow> 'm \<Rightarrow> tea_Cmd \<Rightarrow> outcome list \<Rightarrow> panic + 'm \<times> installStep list" where
  "drive upd run m c [] = Inr (m, [])"
| "drive upd run m c (oc # ocs) =
    (case started c of
       [] \<Rightarrow> Inr (m, [])
     | s # _ \<Rightarrow>
         (case upd m (run s oc) of
            Inl p \<Rightarrow> Inl p
          | Inr (m', c') \<Rightarrow>
              (case drive upd run m' c' ocs of
                 Inl p \<Rightarrow> Inl p
               | Inr (mf, ex) \<Rightarrow> Inr (mf, s # ex))))"

text \<open>The text \<^verbatim>\<open>part_000\<close> appends to the log for one executed step.\<close>

definition segment :: "installStep \<Rightarrow> outcome \<Rightarrow> string" where
  "segment s oc = ''>>> '' @ desc s @ [CHR 0x0A] @ fst oc @ [CHR 0x0A]"

section \<open>The Run State invariants of the specification\<close>

text \<open>
  The three invariants of the specification's data model, on the fields of either
  version's model.
\<close>

definition run_state_inv :: "'a model_scheme \<Rightarrow> bool" where
  "run_state_inv m =
    ((state m = stateMenu \<longrightarrow> steps m = [] \<and> currentStep m = 0) \<and>
     (state m = stateRunning \<longrightarrow> 0 \<le> currentStep m \<and> currentStep m < int (length (steps m))) \<and>
     (state m = stateDone \<longrightarrow> currentStep m = int (length (steps m)) \<or> err m \<noteq> None))"

section \<open>The documented workflow order\<close>




section \<open>The invariant of the reachable configurations\<close>

text \<open>
  The invariant that the transitions of both versions keep: the cursor stays inside the
  menu, and the steps in flight are none in the Menu and Done phases and exactly the
  step at the current index in the Running phase.
\<close>

definition config_inv :: "'a model_scheme \<Rightarrow> installStep list \<Rightarrow> bool" where
  "config_inv m fl =
    (length (choices m) = 4 \<and> 0 \<le> cursor m \<and> cursor m \<le> 3 \<and>
     (state m = stateMenu \<longrightarrow> steps m = [] \<and> currentStep m = 0 \<and> fl = []) \<and>
     (state m = stateRunning \<longrightarrow>
        0 \<le> currentStep m \<and> currentStep m < int (length (steps m)) \<and> length (steps m) \<le> 10 \<and>
        err m = None \<and> fl = [steps m ! nat (currentStep m)]) \<and>
     (state m = stateDone \<longrightarrow>
        fl = [] \<and>
        (err m = None \<and> currentStep m = int (length (steps m)) \<or>
         err m \<noteq> None \<and> 0 \<le> currentStep m \<and> currentStep m < int (length (steps m)))))"

section \<open>Concrete inputs\<close>

text \<open>
  An instance of the library for evaluating the program at concrete inputs: the spinner
  counts its frames and asks for its next tick, the viewport reacts to key messages only
  and records the length of the content it is given. As the viewport of the bubbles
  package does, \<^verbatim>\<open>GotoBottom\<close> panics with slice bounds out of range when the height of the
  viewport is less than the rows its style takes for the frame: the two border rows of
  \<^verbatim>\<open>styleTermBox\<close>.
\<close>

definition frame_rows :: "viewport_Model \<Rightarrow> int" where
  "frame_rows vp = (if vp_Style vp = ''styleTermBox'' then 2 else 0)"

definition lib0 :: lib where
  "lib0 =
    \<lparr>spinner_New = \<lparr>sp_Spinner = ''Line'', sp_Style = [], sp_inner = 0\<rparr>,
     spinner_Update = (\<lambda>sp msg. (sp\<lparr>sp_inner := Suc (sp_inner sp)\<rparr>, Some 1)),
     viewport_New = (\<lambda>w h. \<lparr>vp_Width = w, vp_Height = h, vp_Style = [], vp_inner = 0\<rparr>),
     viewport_Update =
       (\<lambda>vp msg. case msg of KeyMsg k \<Rightarrow> (vp\<lparr>vp_inner := Suc (vp_inner vp)\<rparr>, None) | _ \<Rightarrow> (vp, None)),
     viewport_SetContent = (\<lambda>vp s. Inr (vp\<lparr>vp_inner := length s\<rparr>)),
     viewport_GotoBottom =
       (\<lambda>vp. if vp_Height vp < frame_rows vp then Inl SliceBoundsOutOfRange else Inr vp),
     style_Render = (\<lambda>s. s)\<rparr>"

text \<open>
  The models of a run of Uninstall: the menu with the cursor on the third entry, and the
  model once enter has started the run.
\<close>

definition menu_uninstall :: model where
  "menu_uninstall = (initialModel lib0)\<lparr>cursor := 2\<rparr>"

definition running_uninstall :: model where
  "running_uninstall = menu_uninstall\<lparr>state := stateRunning, steps := getSteps 2\<rparr>"

definition menu_uninstall2 :: model2 where
  "menu_uninstall2 = (initialModel2 lib0)\<lparr>cursor := 2\<rparr>"

definition running_uninstall2 :: model2 where
  "running_uninstall2 = menu_uninstall2\<lparr>state := stateRunning, steps := getSteps2 2\<rparr>"

text \<open>The menu with the cursor on Exit, the last entry.\<close>

definition menu_exit :: model where
  "menu_exit = (initialModel lib0)\<lparr>cursor := 3\<rparr>"



text \<open>
  The models of a run of Install in \<^verbatim>\<open>part_000\<close> on a terminal of 80 columns and 24 rows:
  the initial model once the size has arrived, the model once enter has started the
  run, and the model after the first step has failed with the output "dnf: no network"
  and the error "exit status 1".
\<close>

definition sized2 :: model2 where
  "sized2 =
    (initialModel2 lib0)
      \<lparr>width := 80, height := 24,
       viewport := (viewport (initialModel2 lib0))\<lparr>vp_Width := 76, vp_Height := 8\<rparr>\<rparr>"

definition running_install2 :: model2 where
  "running_install2 = sized2\<lparr>state := stateRunning, steps := getSteps2 0\<rparr>"

definition failed_install2 :: model2 where
  "failed_install2 =
    running_install2
      \<lparr>state := stateDone, err := Some ''exit status 1'',
       viewport := (viewport running_install2)
         \<lparr>vp_inner := length (segment (step ''Installing Group Tools...'' DEPS_CMD)
                                      (''dnf: no network'', Some ''exit status 1''))\<rparr>,
       termContent := segment (step ''Installing Group Tools...'' DEPS_CMD)
                        (''dnf: no network'', Some ''exit status 1'')\<rparr>"

text \<open>
  The model of a run of Install in \<^verbatim>\<open>part_000\<close> that enter has started before any size has
  arrived: the viewport still has the height 0 of \<^verbatim>\<open>viewport.New(0, 0)\<close>.
\<close>

definition unsized_install2 :: model2 where
  "unsized_install2 = (initialModel2 lib0)\<lparr>state := stateRunning, steps := getSteps2 0\<rparr>"

text \<open>The model of \<^verbatim>\<open>main.go\<close> after the three steps of Uninstall have succeeded.\<close>

definition done_uninstall :: model where
  "done_uninstall =
    running_uninstall\<lparr>currentStep := 3, state := stateDone, logMsg := ''Process Completed.''\<rparr>"

section \<open>What the runs of \<^verbatim>\<open>part_000\<close> need of the library\<close>

text \<open>
  The viewport calls of a completion return, and keep the height, on every viewport of
  height at least 2, the rows of the frame of \<^verbatim>\<open>styleTermBox\<close>.
\<close>

definition viewport_sound :: "lib \<Rightarrow> bool" where
  "viewport_sound L =
    (\<forall>vp content. 2 \<le> vp_Height vp \<longrightarrow>
       (\<exists>vp'. Update2_show L vp content = Inr vp' \<and> vp_Height vp' = vp_Height vp))"

section \<open>Auxiliary facts\<close>

lemma int64_id: "- (2 ^ 63) \<le> x \<Longrightarrow> x < 2 ^ 63 \<Longrightarrow> int64 x = x"
  by (simp add: int64_def)

lemma started_Init: "started (Init m) = []"
  by (simp add: Init_def started_def)

lemma enter_uninstall:
  "Update lib0 menu_uninstall (KeyMsg ''enter'')
     = Inr (running_uninstall,
            Cmd_Batch [Cmd_Tick, Cmd_runStep (step ''Removing Binary...'' ''rm -f /usr/local/bin/tic80'')])"
  by (simp add: Update_def Update_key_def menu_uninstall_def running_uninstall_def initialModel_def
      getSteps_def index_def)

lemma enter_uninstall2:
  "Update2 lib0 menu_uninstall2 (KeyMsg ''enter'')
     = Inr (running_uninstall2,
            Cmd_Batch [Cmd_Tick, Cmd_runStepStreamed (step ''Removing Binary...'' ''rm -f /usr/local/bin/tic80'')])"
  by (simp add: Update2_def Update2_key_def menu_uninstall2_def running_uninstall2_def
      initialModel2_def getSteps2_def index_def)

section \<open>The reachable configurations of main.go\<close>

lemma started_simps [simp]:
  "started Cmd_nil = []" "started Cmd_Quit = []" "started (lib_cmd lc) = []"
  "started (Cmd_runStep s) = [s]" "started (Cmd_runStepStreamed s) = [s]"
  "started (Cmd_Batch [Cmd_Tick, Cmd_runStep s]) = [s]"
  "started (Cmd_Batch [Cmd_Tick, Cmd_runStepStreamed s]) = [s]"
  "started (Cmd_Batch [lib_cmd lc]) = []"
  "started (Cmd_Batch [lib_cmd lc', lib_cmd lc]) = []"
  by (cases lc; cases lc'; simp add: started_def)+

lemma getSteps_length: "0 \<le> c \<Longrightarrow> c \<le> 2 \<Longrightarrow> 0 < length (getSteps c) \<and> length (getSteps c) \<le> 10"
  by (simp add: getSteps_def)

lemma index_Inr: "index xs i = Inr x \<Longrightarrow> 0 \<le> i \<and> i < int (length xs) \<and> x = xs ! nat i"
  by (simp add: index_def split: if_splits)

lemma Update_key_cases:
  assumes "Update_key m k = Inr (m', c)"
  shows "(m' = m \<and> (c = Cmd_nil \<or> c = Cmd_Quit)) \<or>
         (state m = stateMenu \<and> 0 < cursor m \<and> m' = m\<lparr>cursor := cursor m - 1\<rparr> \<and> c = Cmd_nil) \<or>
         (state m = stateMenu \<and> cursor m < int (length (choices m)) - 1 \<and>
            m' = m\<lparr>cursor := cursor m + 1\<rparr> \<and> c = Cmd_nil) \<or>
         (state m = stateMenu \<and> k = ''enter'' \<and> cursor m \<noteq> 3 \<and>
            (\<exists>s. index (getSteps (cursor m)) 0 = Inr s \<and>
               m' = m\<lparr>state := stateRunning, currentStep := 0, err := None, steps := getSteps (cursor m)\<rparr> \<and>
               c = Cmd_Batch [Cmd_Tick, Cmd_runStep s]))"
  using assms unfolding Update_key_def Let_def
  by (simp split: if_splits sum.splits)


lemma Update_key_inv:
  assumes i: "config_inv m fl" and u: "Update_key m k = Inr (m', c)"
  shows "config_inv m' (fl @ started c)"
proof -
  from Update_key_cases [OF u]
  consider (same) "m' = m" "c = Cmd_nil \<or> c = Cmd_Quit"
    | (up) "state m = stateMenu" "0 < cursor m" "m' = m\<lparr>cursor := cursor m - 1\<rparr>" "c = Cmd_nil"
    | (down) "state m = stateMenu" "cursor m < int (length (choices m)) - 1"
        "m' = m\<lparr>cursor := cursor m + 1\<rparr>" "c = Cmd_nil"
    | (enter) s where "state m = stateMenu" "cursor m \<noteq> 3" "index (getSteps (cursor m)) 0 = Inr s"
        "m' = m\<lparr>state := stateRunning, currentStep := 0, err := None, steps := getSteps (cursor m)\<rparr>"
        "c = Cmd_Batch [Cmd_Tick, Cmd_runStep s]"
    by blast
  then show ?thesis
  proof cases
    case same
    with i show ?thesis by auto
  next
    case up
    with i show ?thesis by (simp add: config_inv_def)
  next
    case down
    with i show ?thesis by (simp add: config_inv_def)
  next
    case enter
    from i enter(2) have c: "0 \<le> cursor m" "cursor m \<le> 2" by (simp_all add: config_inv_def)
    from getSteps_length [OF c] have l: "length (getSteps (cursor m)) \<le> 10" by simp
    from index_Inr [OF enter(3)] have s: "0 < length (getSteps (cursor m))" "s = getSteps (cursor m) ! 0"
      by simp_all
    from i enter(1) have fl: "fl = []" by (simp add: config_inv_def)
    from i have ch: "length (choices m) = 4" "0 \<le> cursor m" "cursor m \<le> 3" by (simp_all add: config_inv_def)
    show ?thesis unfolding enter(4,5) fl using ch l s
      by (simp add: config_inv_def)
  qed
qed

lemma Update_key_total:
  assumes "config_inv m fl"
  shows "\<exists>m' c. Update_key m k = Inr (m', c)"
proof (cases "state m = stateMenu \<and> k = ''enter'' \<and> cursor m \<noteq> 3")
  case True
  with assms have c: "0 \<le> cursor m" "cursor m \<le> 2" by (simp_all add: config_inv_def)
  from getSteps_length [OF c] have l: "0 < length (getSteps (cursor m))" by simp
  with True show ?thesis by (simp add: Update_key_def index_def Let_def)
next
  case False
  then show ?thesis by (simp add: Update_key_def)
qed


lemma Update_finished_fail:
  "Update_finished m (Some er) = Inr (m\<lparr>state := stateDone, err := Some er\<rparr>, Cmd_nil)"
  by (simp add: Update_finished_def)

lemma Update_finished_last:
  assumes "0 \<le> currentStep m" and "currentStep m + 1 = int (length (steps m))" and "length (steps m) \<le> 10"
  shows "Update_finished m None =
    Inr (m\<lparr>currentStep := currentStep m + 1, state := stateDone, logMsg := ''Process Completed.''\<rparr>, Cmd_nil)"
proof -
  from assms have "int64 (currentStep m + 1) = currentStep m + 1"
    by (intro int64_id) simp_all
  with assms show ?thesis by (simp add: Update_finished_def Let_def)
qed

lemma Update_finished_next:
  assumes "0 \<le> currentStep m" and "currentStep m + 1 < int (length (steps m))" and "length (steps m) \<le> 10"
  shows "Update_finished m None =
    Inr (m\<lparr>currentStep := currentStep m + 1\<rparr>, Cmd_runStep (steps m ! nat (currentStep m + 1)))"
proof -
  from assms have "int64 (currentStep m + 1) = currentStep m + 1"
    by (intro int64_id) simp_all
  with assms show ?thesis by (simp add: Update_finished_def Let_def index_def)
qed

lemma config_inv_in_flight:
  assumes "config_inv m fl" and "s \<in> set fl"
  shows "state m = stateRunning \<and> 0 \<le> currentStep m \<and> currentStep m < int (length (steps m)) \<and>
         length (steps m) \<le> 10 \<and> fl = [steps m ! nat (currentStep m)] \<and> s = steps m ! nat (currentStep m)"
proof (cases "state m")
  case stateMenu
  with assms show ?thesis by (simp add: config_inv_def)
next
  case stateRunning
  with assms show ?thesis by (simp add: config_inv_def)
next
  case stateDone
  with assms show ?thesis by (simp add: config_inv_def)
qed

lemma Update_finished_inv:
  assumes i: "config_inv m fl" and s: "s \<in> set fl" and u: "Update_finished m e = Inr (m', c)"
  shows "config_inv m' (remove1 s fl @ started c)"
proof -
  from config_inv_in_flight [OF i s]
  have r: "state m = stateRunning" and b: "0 \<le> currentStep m" "currentStep m < int (length (steps m))"
    "length (steps m) \<le> 10" and fl: "fl = [s]"
    by simp_all
  from i r have en: "err m = None" by (simp add: config_inv_def)
  from i have ch: "length (choices m) = 4" "0 \<le> cursor m" "cursor m \<le> 3" by (simp_all add: config_inv_def)
  show ?thesis
  proof (cases e)
    case (Some er)
    with u have "m' = m\<lparr>state := stateDone, err := Some er\<rparr>" "c = Cmd_nil"
      by (simp_all add: Update_finished_fail)
    with b ch fl show ?thesis by (simp add: config_inv_def)
  next
    case None
    show ?thesis
    proof (cases "currentStep m + 1 = int (length (steps m))")
      case True
      from u None Update_finished_last [OF b(1) True b(3)]
      have "m' = m\<lparr>currentStep := currentStep m + 1, state := stateDone, logMsg := ''Process Completed.''\<rparr>"
        "c = Cmd_nil" by simp_all
      with b ch fl True en show ?thesis by (simp add: config_inv_def)
    next
      case False
      with b have lt: "currentStep m + 1 < int (length (steps m))" by simp
      from u None Update_finished_next [OF b(1) lt b(3)]
      have "m' = m\<lparr>currentStep := currentStep m + 1\<rparr>"
        "c = Cmd_runStep (steps m ! nat (currentStep m + 1))" by simp_all
      with b ch fl lt r en show ?thesis by (simp add: config_inv_def)
    qed
  qed
qed

lemma Update_finished_total:
  assumes i: "config_inv m fl" and s: "s \<in> set fl"
  shows "\<exists>m' c. Update_finished m e = Inr (m', c)"
proof -
  from config_inv_in_flight [OF i s]
  have b: "0 \<le> currentStep m" "currentStep m < int (length (steps m))" "length (steps m) \<le> 10"
    by simp_all
  show ?thesis
  proof (cases e)
    case (Some er)
    then show ?thesis by (simp add: Update_finished_fail)
  next
    case None
    show ?thesis
    proof (cases "currentStep m + 1 = int (length (steps m))")
      case True
      from Update_finished_last [OF b(1) True b(3)] None show ?thesis by simp
    next
      case False
      with b have lt: "currentStep m + 1 < int (length (steps m))" by simp
      from Update_finished_next [OF b(1) lt b(3)] None show ?thesis by simp
    qed
  qed
qed

lemma Update_event_inv:
  assumes i: "config_inv m fl" and e: "external msg" and u: "Update L m msg = Inr (m', c)"
  shows "config_inv m' (fl @ started c)"
proof (cases msg)
  case (KeyMsg k)
  with u have "Update_key m k = Inr (m', c)" by (simp add: Update_def)
  from Update_key_inv [OF i this] show ?thesis .
next
  case (WindowSizeMsg w h)
  with u have "m' = m\<lparr>width := w, height := h\<rparr>" "c = Cmd_nil" by (simp_all add: Update_def)
  with i show ?thesis by (simp add: config_inv_def)
next
  case (TickMsg t)
  show ?thesis
  proof (cases "state m = stateRunning")
    case True
    obtain sp lc where sp: "spinner_Update L (spinner m) (TickMsg t) = (sp, lc)" by (cases "spinner_Update L (spinner m) (TickMsg t)")
    with u TickMsg True have "m' = m\<lparr>spinner := sp\<rparr>" "c = lib_cmd lc" by (simp_all add: Update_def)
    with i show ?thesis by (simp add: config_inv_def)
  next
    case False
    with u TickMsg have "m' = m" "c = Cmd_nil" by (simp_all add: Update_def)
    with i show ?thesis by simp
  qed
next
  case (OtherMsg n)
  with u have "m' = m" "c = Cmd_nil" by (simp_all add: Update_def)
  with i show ?thesis by simp
next
  case (stepFinishedMsg x)
  with e show ?thesis by simp
next
  case (stepLogAndFinishMsg x y)
  with e show ?thesis by simp
qed

lemma runStep_msg: "runStep s oc = stepFinishedMsg (map_option (\<lambda>e. step_error s (fst oc)) (snd oc))"
  by (cases "snd oc") (simp_all add: runStep_def)

lemma reachable_inv: "reachable L cf \<Longrightarrow> config_inv (fst cf) (snd cf)"
proof (induction rule: reachable.induct)
  case r_init
  show ?case by (simp add: config_inv_def initialModel_def)
next
  case (r_event m fl msg m' c)
  from Update_event_inv [OF _ r_event(2,3)] r_event(4) show ?case by simp
next
  case (r_done m fl s oc m' c)
  from r_done(3) have "Update_finished m (map_option (\<lambda>e. step_error s (fst oc)) (snd oc)) = Inr (m', c)"
    by (simp add: runStep_msg Update_def)
  from Update_finished_inv [OF _ r_done(2) this] r_done(4) show ?case by simp
qed

section \<open>The reachable configurations of part_000\<close>

lemma getSteps2_length: "0 \<le> c \<Longrightarrow> c \<le> 2 \<Longrightarrow> 0 < length (getSteps2 c) \<and> length (getSteps2 c) \<le> 10"
  by (simp add: getSteps2_def)

lemma config_inv_frame [simp]:
  "config_inv (m\<lparr>viewport := vp\<rparr>) fl = config_inv m fl"
  "config_inv (m\<lparr>showTerm := b\<rparr>) fl = config_inv m fl"
  "config_inv (m\<lparr>termContent := t\<rparr>) fl = config_inv m fl"
  "config_inv (m\<lparr>spinner := sp\<rparr>) fl = config_inv m fl"
  "config_inv (m\<lparr>width := w\<rparr>) fl = config_inv m fl"
  "config_inv (m\<lparr>height := h\<rparr>) fl = config_inv m fl"
  by (simp_all add: config_inv_def)

lemma Update2_tail_eq:
  "Update2_tail L m msg cmds =
     Inr (m\<lparr>viewport := fst (viewport_Update L (viewport m) msg)\<rparr>,
          Cmd_Batch (cmds @ [lib_cmd (snd (viewport_Update L (viewport m) msg))]))"
  by (simp add: Update2_tail_def split: prod.splits)

lemma Update2_key_cases:
  assumes "Update2_key L m k = Inr (m', c)"
  defines "vp \<equiv> fst (viewport_Update L (viewport m) (KeyMsg k))"
    and "lc \<equiv> snd (viewport_Update L (viewport m) (KeyMsg k))"
  shows "(m' = m \<and> c = Cmd_Quit) \<or>
         (m' = m\<lparr>showTerm := \<not> showTerm m\<rparr> \<and> c = Cmd_nil) \<or>
         (c = Cmd_Batch [lib_cmd lc] \<and>
            (m' = m\<lparr>viewport := vp\<rparr> \<or>
             state m = stateMenu \<and> 0 < cursor m \<and> m' = m\<lparr>cursor := cursor m - 1, viewport := vp\<rparr> \<or>
             state m = stateMenu \<and> cursor m < int (length (choices m)) - 1 \<and>
               m' = m\<lparr>cursor := cursor m + 1, viewport := vp\<rparr>)) \<or>
         (state m = stateMenu \<and> k = ''enter'' \<and> cursor m \<noteq> 3 \<and>
            (\<exists>s. index (getSteps2 (cursor m)) 0 = Inr s \<and>
               m' = m\<lparr>state := stateRunning, currentStep := 0, err := None, termContent := [],
                      steps := getSteps2 (cursor m)\<rparr> \<and>
               c = Cmd_Batch [Cmd_Tick, Cmd_runStepStreamed s]))"
  using assms(1) unfolding Update2_key_def Let_def Update2_tail_eq vp_def lc_def
  by (simp split: if_splits sum.splits)


lemma Update2_key_inv:
  assumes i: "config_inv m fl" and u: "Update2_key L m k = Inr (m', c)"
  shows "config_inv m' (fl @ started c)"
proof -
  define vp where "vp = fst (viewport_Update L (viewport m) (KeyMsg k))"
  define lc where "lc = snd (viewport_Update L (viewport m) (KeyMsg k))"
  from Update2_key_cases [OF u, folded vp_def lc_def]
  consider (quit) "m' = m" "c = Cmd_Quit"
    | (toggle) "m' = m\<lparr>showTerm := \<not> showTerm m\<rparr>" "c = Cmd_nil"
    | (same) "c = Cmd_Batch [lib_cmd lc]" "m' = m\<lparr>viewport := vp\<rparr>"
    | (up) "c = Cmd_Batch [lib_cmd lc]" "state m = stateMenu" "0 < cursor m"
        "m' = m\<lparr>cursor := cursor m - 1, viewport := vp\<rparr>"
    | (down) "c = Cmd_Batch [lib_cmd lc]" "state m = stateMenu" "cursor m < int (length (choices m)) - 1"
        "m' = m\<lparr>cursor := cursor m + 1, viewport := vp\<rparr>"
    | (enter) s where "state m = stateMenu" "cursor m \<noteq> 3" "index (getSteps2 (cursor m)) 0 = Inr s"
        "m' = m\<lparr>state := stateRunning, currentStep := 0, err := None, termContent := [],
               steps := getSteps2 (cursor m)\<rparr>"
        "c = Cmd_Batch [Cmd_Tick, Cmd_runStepStreamed s]"
    by blast
  then show ?thesis
  proof cases
    case quit
    with i show ?thesis by simp
  next
    case toggle
    with i show ?thesis by simp
  next
    case same
    with i show ?thesis by simp
  next
    case up
    with i show ?thesis by (simp add: config_inv_def)
  next
    case down
    with i show ?thesis by (simp add: config_inv_def)
  next
    case enter
    from i enter(2) have c: "0 \<le> cursor m" "cursor m \<le> 2" by (simp_all add: config_inv_def)
    from getSteps2_length [OF c] have l: "length (getSteps2 (cursor m)) \<le> 10" by simp
    from index_Inr [OF enter(3)] have s: "0 < length (getSteps2 (cursor m))" "s = getSteps2 (cursor m) ! 0"
      by simp_all
    from i enter(1) have fl: "fl = []" by (simp add: config_inv_def)
    from i have ch: "length (choices m) = 4" "0 \<le> cursor m" "cursor m \<le> 3" by (simp_all add: config_inv_def)
    show ?thesis unfolding enter(4,5) fl using ch l s
      by (simp add: config_inv_def)
  qed
qed

lemma Update2_key_total:
  assumes "config_inv m fl"
  shows "\<exists>m' c. Update2_key L m k = Inr (m', c)"
proof (cases "state m = stateMenu \<and> k = ''enter'' \<and> cursor m \<noteq> 3")
  case True
  with assms have c: "0 \<le> cursor m" "cursor m \<le> 2" by (simp_all add: config_inv_def)
  from getSteps2_length [OF c] have l: "0 < length (getSteps2 (cursor m))" by simp
  with True show ?thesis by (simp add: Update2_key_def index_def Let_def)
next
  case False
  then show ?thesis by (simp add: Update2_key_def Update2_tail_eq)
qed

lemma Update2_finished_shown:
  assumes "Update2_finished L m out e = Inr (m', c)"
  shows "0 \<le> currentStep m \<and> currentStep m < int (length (steps m)) \<and>
    Update2_show L (viewport m) (termContent m @ segment (steps m ! nat (currentStep m)) (out, e))
      = Inr (viewport m')"
  using assms
  by (auto simp: Update2_finished_def index_def Let_def segment_def
      split: if_splits sum.splits option.splits)

lemma Update2_finished_fail:
  assumes "0 \<le> currentStep m" and "currentStep m < int (length (steps m))"
    and "Update2_show L (viewport m) (termContent m @ segment (steps m ! nat (currentStep m)) (out, Some er))
      = Inr vp"
  shows "Update2_finished L m out (Some er) =
    Inr (m\<lparr>state := stateDone, err := Some er, viewport := vp,
           termContent := termContent m @ segment (steps m ! nat (currentStep m)) (out, Some er)\<rparr>, Cmd_nil)"
  using assms by (simp add: Update2_finished_def index_def Let_def segment_def)

lemma Update2_finished_last:
  assumes "0 \<le> currentStep m" and "currentStep m + 1 = int (length (steps m))" and "length (steps m) \<le> 10"
    and "Update2_show L (viewport m) (termContent m @ segment (steps m ! nat (currentStep m)) (out, None))
      = Inr vp"
  shows "Update2_finished L m out None =
    Inr (m\<lparr>currentStep := currentStep m + 1, state := stateDone, logMsg := ''Process Completed.'',
           viewport := vp,
           termContent := termContent m @ segment (steps m ! nat (currentStep m)) (out, None)\<rparr>, Cmd_nil)"
proof -
  from assms have "int64 (currentStep m + 1) = currentStep m + 1"
    by (intro int64_id) simp_all
  with assms show ?thesis by (simp add: Update2_finished_def Let_def index_def segment_def)
qed

lemma Update2_finished_next:
  assumes "0 \<le> currentStep m" and "currentStep m + 1 < int (length (steps m))" and "length (steps m) \<le> 10"
    and "Update2_show L (viewport m) (termContent m @ segment (steps m ! nat (currentStep m)) (out, None))
      = Inr vp"
  shows "Update2_finished L m out None =
    Inr (m\<lparr>currentStep := currentStep m + 1, viewport := vp,
           termContent := termContent m @ segment (steps m ! nat (currentStep m)) (out, None)\<rparr>,
         Cmd_runStepStreamed (steps m ! nat (currentStep m + 1)))"
proof -
  from assms have "int64 (currentStep m + 1) = currentStep m + 1"
    by (intro int64_id) simp_all
  with assms show ?thesis by (simp add: Update2_finished_def Let_def index_def segment_def)
qed

lemma Update2_finished_inv:
  assumes i: "config_inv m fl" and s: "s \<in> set fl" and u: "Update2_finished L m out e = Inr (m', c)"
  shows "config_inv m' (remove1 s fl @ started c)"
proof -
  from config_inv_in_flight [OF i s]
  have r: "state m = stateRunning" and b: "0 \<le> currentStep m" "currentStep m < int (length (steps m))"
    "length (steps m) \<le> 10" and fl: "fl = [s]"
    by simp_all
  from i r have en: "err m = None" by (simp add: config_inv_def)
  from i have ch: "length (choices m) = 4" "0 \<le> cursor m" "cursor m \<le> 3" by (simp_all add: config_inv_def)
  from Update2_finished_shown [OF u]
  obtain vp where sh: "Update2_show L (viewport m)
      (termContent m @ segment (steps m ! nat (currentStep m)) (out, e)) = Inr vp" by blast
  show ?thesis
  proof (cases e)
    case (Some er)
    from u [unfolded Some Update2_finished_fail [OF b(1,2) sh [unfolded Some]]]
    have "c = Cmd_nil" and m': "state m' = stateDone" "err m' = Some er" "steps m' = steps m"
      "currentStep m' = currentStep m" "cursor m' = cursor m" "choices m' = choices m"
      by auto
    with b ch fl show ?thesis by (simp add: config_inv_def)
  next
    case None
    show ?thesis
    proof (cases "currentStep m + 1 = int (length (steps m))")
      case True
      from u [unfolded None Update2_finished_last [OF b(1) True b(3) sh [unfolded None]]]
      have "c = Cmd_nil" and m': "state m' = stateDone" "err m' = err m" "steps m' = steps m"
        "currentStep m' = currentStep m + 1" "cursor m' = cursor m" "choices m' = choices m"
        by auto
      with b ch fl True en show ?thesis by (simp add: config_inv_def)
    next
      case False
      with b have lt: "currentStep m + 1 < int (length (steps m))" by simp
      from u [unfolded None Update2_finished_next [OF b(1) lt b(3) sh [unfolded None]]]
      have "c = Cmd_runStepStreamed (steps m ! nat (currentStep m + 1))"
        and m': "state m' = state m" "err m' = err m" "steps m' = steps m"
        "currentStep m' = currentStep m + 1" "cursor m' = cursor m" "choices m' = choices m"
        by auto
      with b ch fl lt r en show ?thesis by (simp add: config_inv_def)
    qed
  qed
qed

lemma Update2_event_inv:
  assumes i: "config_inv m fl" and e: "external msg" and u: "Update2 L m msg = Inr (m', c)"
  shows "config_inv m' (fl @ started c)"
proof (cases msg)
  case (KeyMsg k)
  with u have "Update2_key L m k = Inr (m', c)" by (simp add: Update2_def)
  from Update2_key_inv [OF i this] show ?thesis .
next
  case (WindowSizeMsg w h)
  with u obtain vp lc where "m' = m\<lparr>width := w, height := h, viewport := vp\<rparr>" "c = Cmd_Batch [lib_cmd lc]"
    by (auto simp: Update2_def Update2_tail_eq)
  with i show ?thesis by simp
next
  case (TickMsg t)
  show ?thesis
  proof (cases "state m = stateRunning")
    case True
    with u TickMsg obtain sp vp lc lc' where "m' = m\<lparr>spinner := sp, viewport := vp\<rparr>"
      "c = Cmd_Batch [lib_cmd lc', lib_cmd lc]"
      by (auto simp: Update2_def Update2_tail_eq split: prod.splits)
    with i show ?thesis by simp
  next
    case False
    with u TickMsg obtain vp lc where "m' = m\<lparr>viewport := vp\<rparr>" "c = Cmd_Batch [lib_cmd lc]"
      by (auto simp: Update2_def Update2_tail_eq)
    with i show ?thesis by simp
  qed
next
  case (OtherMsg n)
  with u obtain vp lc where "m' = m\<lparr>viewport := vp\<rparr>" "c = Cmd_Batch [lib_cmd lc]"
    by (auto simp: Update2_def Update2_tail_eq)
  with i show ?thesis by simp
next
  case (stepFinishedMsg x)
  with e show ?thesis by simp
next
  case (stepLogAndFinishMsg x y)
  with e show ?thesis by simp
qed

lemma reachable2_inv: "reachable2 L cf \<Longrightarrow> config_inv (fst cf) (snd cf)"
proof (induction rule: reachable2.induct)
  case r2_init
  show ?case by (simp add: config_inv_def initialModel2_def)
next
  case (r2_event m fl msg m' c)
  from Update2_event_inv [OF _ r2_event(2,3)] r2_event(4) show ?case by simp
next
  case (r2_done m fl s oc m' c)
  from r2_done(3) have "Update2_finished L m (fst oc) (snd oc) = Inr (m', c)"
    by (simp add: runStepStreamed_def Update2_def)
  from Update2_finished_inv [OF _ r2_done(2) this] r2_done(4) show ?case by simp
qed

lemma config_inv_run_state: "config_inv m fl \<Longrightarrow> run_state_inv m"
  by (auto simp: config_inv_def run_state_inv_def)

section \<open>Concrete reachable configurations\<close>

lemma down_step:
  "Update lib0 ((initialModel lib0)\<lparr>cursor := 0\<rparr>) (KeyMsg ''down'') = Inr ((initialModel lib0)\<lparr>cursor := 1\<rparr>, Cmd_nil)"
  "Update lib0 ((initialModel lib0)\<lparr>cursor := 1\<rparr>) (KeyMsg ''down'') = Inr ((initialModel lib0)\<lparr>cursor := 2\<rparr>, Cmd_nil)"
  "Update lib0 ((initialModel lib0)\<lparr>cursor := 2\<rparr>) (KeyMsg ''down'') = Inr ((initialModel lib0)\<lparr>cursor := 3\<rparr>, Cmd_nil)"
  by (simp_all add: Update_def Update_key_def initialModel_def)

lemma reachable_menu:
  "reachable lib0 (initialModel lib0, [])" "reachable lib0 (menu_uninstall, [])" "reachable lib0 (menu_exit, [])"
proof -
  show 0: "reachable lib0 (initialModel lib0, [])" by (rule r_init)
  have "initialModel lib0 = (initialModel lib0)\<lparr>cursor := 0\<rparr>" by (simp add: initialModel_def)
  with 0 have "reachable lib0 ((initialModel lib0)\<lparr>cursor := 0\<rparr>, [])" by simp
  from r_event [OF this _ down_step(1)] have "reachable lib0 ((initialModel lib0)\<lparr>cursor := 1\<rparr>, [])" by simp
  from r_event [OF this _ down_step(2)] show 2: "reachable lib0 (menu_uninstall, [])"
    by (simp add: menu_uninstall_def)
  from r_event [OF 2 [unfolded menu_uninstall_def] _ down_step(3)] show "reachable lib0 (menu_exit, [])"
    by (simp add: menu_exit_def)
qed

lemma reachable_running:
  "reachable lib0 (running_uninstall, [step ''Removing Binary...'' ''rm -f /usr/local/bin/tic80''])"
  using r_event [OF reachable_menu(2) _ enter_uninstall] by simp



lemma Update_enter:
  assumes "state m = stateMenu" and "cursor m \<noteq> 3" and "getSteps (cursor m) \<noteq> []"
  shows "Update L m (KeyMsg ''enter'') =
    Inr (m\<lparr>state := stateRunning, currentStep := 0, err := None, steps := getSteps (cursor m)\<rparr>,
         Cmd_Batch [Cmd_Tick, Cmd_runStep (hd (getSteps (cursor m)))])"
  using assms by (simp add: Update_def Update_key_def Let_def index_def hd_conv_nth)

lemma Update2_enter:
  assumes "state m = stateMenu" and "cursor m \<noteq> 3" and "getSteps2 (cursor m) \<noteq> []"
  shows "Update2 L m (KeyMsg ''enter'') =
    Inr (m\<lparr>state := stateRunning, currentStep := 0, err := None, termContent := [],
           steps := getSteps2 (cursor m)\<rparr>,
         Cmd_Batch [Cmd_Tick, Cmd_runStepStreamed (hd (getSteps2 (cursor m)))])"
  using assms by (simp add: Update2_def Update2_key_def Let_def index_def hd_conv_nth)

lemma getSteps_2:
  "getSteps 2 =
    [step ''Removing Binary...'' ''rm -f /usr/local/bin/tic80'',
     step ''Removing Desktop Entry...'' ''rm -f /usr/local/share/applications/tic80.desktop'',
     step ''Removing Icon...'' ''rm -f /usr/local/share/icons/hicolor/scalable/apps/tic80.svg'']"
  by (simp add: getSteps_def)

lemma getSteps2_2:
  "getSteps2 2 =
    [step ''Removing Binary...'' ''rm -f /usr/local/bin/tic80'',
     step ''Removing Desktop...'' ''rm -f /usr/local/share/applications/tic80.desktop'',
     step ''Removing Icon...'' ''rm -f /usr/local/share/icons/hicolor/scalable/apps/tic80.svg'']"
  by (simp add: getSteps2_def)

lemma menu_uninstall_fields:
  "state menu_uninstall = stateMenu" "cursor menu_uninstall = 2"
  "state menu_uninstall2 = stateMenu" "cursor menu_uninstall2 = 2"
  by (simp_all add: menu_uninstall_def menu_uninstall2_def initialModel_def initialModel2_def)

lemma running_uninstall_fields:
  "state running_uninstall = stateRunning" "currentStep running_uninstall = 0"
  "state running_uninstall2 = stateRunning" "currentStep running_uninstall2 = 0"
  by (simp_all add: running_uninstall_def running_uninstall2_def menu_uninstall_def menu_uninstall2_def
      initialModel_def initialModel2_def)

lemma menu_exit_fields:
  "state menu_exit = stateMenu" "cursor menu_exit = 3" "length (choices menu_exit) = 4"
  "state (initialModel lib0) = stateMenu" "cursor (initialModel lib0) = 0"
  "state (initialModel2 lib0) = stateMenu" "cursor (initialModel2 lib0) = 0"
  by (simp_all add: menu_exit_def initialModel_def initialModel2_def)

section \<open>Runs\<close>

lemma started_of_enter [simp]: "started (Cmd_Batch [Cmd_Tick, c]) = started c"
  by (simp add: started_def)

lemma take_drop_step:
  assumes "i < length xs"
  shows "xs ! i # take n (drop (Suc i) xs) = take (Suc n) (drop i xs)"
  using Cons_nth_drop_Suc [OF assms, symmetric] by simp

lemma Update_runStep_fail:
  "Update L m (runStep s (out, Some e)) =
     Inr (m\<lparr>state := stateDone, err := Some (step_error s out)\<rparr>, Cmd_nil)"
  by (simp add: Update_def runStep_def Update_finished_fail)

lemma Update_runStep_next:
  assumes "0 \<le> currentStep m" and "currentStep m + 1 < int (length (steps m))"
    and "length (steps m) \<le> 10" and "snd oc = None"
  shows "Update L m (runStep s oc) =
    Inr (m\<lparr>currentStep := currentStep m + 1\<rparr>, Cmd_runStep (steps m ! nat (currentStep m + 1)))"
  using assms by (simp add: Update_def runStep_def Update_finished_next)

lemma drive_stopped: "drive upd run m Cmd_nil ocs = Inr (m, [])"
  by (cases ocs) simp_all

lemma drive_fail:
  assumes "0 \<le> currentStep m" and "currentStep m + int (length oks) < int (length (steps m))"
    and "length (steps m) \<le> 10" and "\<forall>oc\<in>set oks. snd oc = None"
    and "started c = [steps m ! nat (currentStep m)]"
  shows "drive (Update L) runStep m c (oks @ (out, Some e) # rest) =
    Inr (m\<lparr>currentStep := currentStep m + int (length oks), state := stateDone,
           err := Some (step_error (steps m ! nat (currentStep m + int (length oks))) out)\<rparr>,
         take (Suc (length oks)) (drop (nat (currentStep m)) (steps m)))"
  using assms
proof (induction oks arbitrary: m c)
  case Nil
  then have lt: "nat (currentStep m) < length (steps m)" by simp
  from Nil lt show ?case
    by (simp add: Update_runStep_fail drive_stopped take_Suc hd_drop_conv_nth)
next
  case (Cons oc oks)
  from Cons.prems have b: "0 \<le> currentStep m" "currentStep m + 1 < int (length (steps m))"
    "length (steps m) \<le> 10" and oc: "snd oc = None" by simp_all
  let ?m = "m\<lparr>currentStep := currentStep m + 1\<rparr>"
  let ?c = "Cmd_runStep (steps m ! nat (currentStep m + 1))"
  from oc b have u: "Update L m (runStep (steps m ! nat (currentStep m)) oc) = Inr (?m, ?c)"
    by (simp add: Update_runStep_next)
  have ih: "drive (Update L) runStep ?m ?c (oks @ (out, Some e) # rest) =
    Inr (?m\<lparr>currentStep := currentStep ?m + int (length oks), state := stateDone,
           err := Some (step_error (steps ?m ! nat (currentStep ?m + int (length oks))) out)\<rparr>,
         take (Suc (length oks)) (drop (nat (currentStep ?m)) (steps ?m)))"
    using Cons.prems by (intro Cons.IH) simp_all
  from b have lt: "nat (currentStep m) < length (steps m)" by simp
  from b have n: "nat (currentStep m + 1) = Suc (nat (currentStep m))" by simp
  have a: "currentStep m + 1 + int (length oks) = currentStep m + (1 + int (length oks))" by simp
  from Cons.prems(5) u ih show ?case
    by (simp add: n a take_drop_step [OF lt])
qed

lemma segment_fst [simp]: "segment s (fst oc, x) = segment s oc"
  by (simp add: segment_def)

lemma step_error_contains: "sublist (desc s) (step_error s out) \<and> sublist out (step_error s out)"
proof
  have "step_error s out = (''Step '' @ [CHR 0x27]) @ desc s @ ([CHR 0x27] @ '' failed:'' @ [CHR 0x0A] @ out)"
    by (simp add: step_error_def)
  then show "sublist (desc s) (step_error s out)" by (simp only: sublist_appendI)
  have "step_error s out = (''Step '' @ [CHR 0x27] @ desc s @ [CHR 0x27] @ '' failed:'' @ [CHR 0x0A]) @ out @ []"
    by (simp add: step_error_def)
  then show "sublist out (step_error s out)" by (simp only: sublist_appendI)
qed

lemma segment_contains: "sublist (desc s) (segment s oc) \<and> sublist (fst oc) (segment s oc)"
proof
  have "segment s oc = ''>>> '' @ desc s @ ([CHR 0x0A] @ fst oc @ [CHR 0x0A])"
    by (simp add: segment_def)
  then show "sublist (desc s) (segment s oc)" by (simp only: sublist_appendI)
  have "segment s oc = (''>>> '' @ desc s @ [CHR 0x0A]) @ fst oc @ [CHR 0x0A]"
    by (simp add: segment_def)
  then show "sublist (fst oc) (segment s oc)" by (simp only: sublist_appendI)
qed

lemma run_fails:
  assumes s: "state m = stateMenu" and c: "cursor m = 0 \<or> cursor m = 1 \<or> cursor m = 2"
    and l: "length oks < length (getSteps (cursor m))" and ok: "\<forall>oc\<in>set oks. snd oc = None"
  shows "\<exists>m0 c0. Update L m (KeyMsg ''enter'') = Inr (m0, c0) \<and>
        drive (Update L) runStep m0 c0 (oks @ (out, Some e) # rest) =
          Inr (m0\<lparr>currentStep := int (length oks), state := stateDone,
                  err := Some (step_error (getSteps (cursor m) ! length oks) out)\<rparr>,
               take (Suc (length oks)) (getSteps (cursor m)))"
proof -
  let ?m0 = "m\<lparr>state := stateRunning, currentStep := 0, err := None, steps := getSteps (cursor m)\<rparr>"
  let ?c0 = "Cmd_Batch [Cmd_Tick, Cmd_runStep (hd (getSteps (cursor m)))]"
  from c have c3: "cursor m \<noteq> 3" and c02: "0 \<le> cursor m" "cursor m \<le> 2" by auto
  from l have n: "getSteps (cursor m) \<noteq> []" by auto
  from getSteps_length [OF c02] have l10: "length (steps ?m0) \<le> 10" by simp
  have st: "started ?c0 = [steps ?m0 ! nat (currentStep ?m0)]"
    using n by (simp add: hd_conv_nth)
  have "drive (Update L) runStep ?m0 ?c0 (oks @ (out, Some e) # rest) =
    Inr (?m0\<lparr>currentStep := currentStep ?m0 + int (length oks), state := stateDone,
           err := Some (step_error (steps ?m0 ! nat (currentStep ?m0 + int (length oks))) out)\<rparr>,
         take (Suc (length oks)) (drop (nat (currentStep ?m0)) (steps ?m0)))"
    using l l10 ok st by (intro drive_fail) simp_all
  with Update_enter [OF s c3 n, of L] show ?thesis by simp
qed

lemma Update_finished_log:
  assumes "Update L m (stepFinishedMsg e) = Inr (m', c)"
  shows "logMsg m' = logMsg m \<or> e = None \<and> state m' = stateDone \<and> logMsg m' = ''Process Completed.''"
  using assms
  by (cases e) (auto simp: Update_def Update_finished_def Let_def split: if_splits sum.splits)

section \<open>Runs of part_000\<close>

lemma viewport_soundD:
  assumes "viewport_sound L" and "2 \<le> vp_Height vp"
  obtains vp' where "Update2_show L vp content = Inr vp'" and "vp_Height vp' = vp_Height vp"
  using assms unfolding viewport_sound_def by blast

lemma Update2_streamed_fail:
  assumes "0 \<le> currentStep m" and "currentStep m < int (length (steps m))"
    and "Update2_show L (viewport m) (termContent m @ segment (steps m ! nat (currentStep m)) (out, Some e))
      = Inr vp"
  shows "Update2 L m (runStepStreamed s (out, Some e)) =
    Inr (m\<lparr>state := stateDone, err := Some e, viewport := vp,
           termContent := termContent m @ segment (steps m ! nat (currentStep m)) (out, Some e)\<rparr>, Cmd_nil)"
  using Update2_finished_fail [OF assms] by (simp add: Update2_def runStepStreamed_def)

lemma Update2_streamed_last:
  assumes "0 \<le> currentStep m" and "currentStep m + 1 = int (length (steps m))" and "length (steps m) \<le> 10"
    and "snd oc = None"
    and "Update2_show L (viewport m) (termContent m @ segment (steps m ! nat (currentStep m)) oc) = Inr vp"
  shows "Update2 L m (runStepStreamed s oc) =
    Inr (m\<lparr>currentStep := currentStep m + 1, state := stateDone, logMsg := ''Process Completed.'',
           viewport := vp,
           termContent := termContent m @ segment (steps m ! nat (currentStep m)) oc\<rparr>, Cmd_nil)"
proof -
  from assms(5) have "Update2_show L (viewport m)
      (termContent m @ segment (steps m ! nat (currentStep m)) (fst oc, None)) = Inr vp" by simp
  from Update2_finished_last [OF assms(1-3) this] assms(4) show ?thesis
    by (simp add: Update2_def runStepStreamed_def)
qed

lemma Update2_streamed_next:
  assumes "0 \<le> currentStep m" and "currentStep m + 1 < int (length (steps m))" and "length (steps m) \<le> 10"
    and "snd oc = None"
    and "Update2_show L (viewport m) (termContent m @ segment (steps m ! nat (currentStep m)) oc) = Inr vp"
  shows "Update2 L m (runStepStreamed s oc) =
    Inr (m\<lparr>currentStep := currentStep m + 1, viewport := vp,
           termContent := termContent m @ segment (steps m ! nat (currentStep m)) oc\<rparr>,
         Cmd_runStepStreamed (steps m ! nat (currentStep m + 1)))"
proof -
  from assms(5) have "Update2_show L (viewport m)
      (termContent m @ segment (steps m ! nat (currentStep m)) (fst oc, None)) = Inr vp" by simp
  from Update2_finished_next [OF assms(1-3) this] assms(4) show ?thesis
    by (simp add: Update2_def runStepStreamed_def)
qed

lemma Update2_streamed_append:
  assumes b: "0 \<le> currentStep m" "currentStep m < int (length (steps m))" "length (steps m) \<le> 10"
    and sh: "Update2_show L (viewport m) (termContent m @ segment (steps m ! nat (currentStep m)) oc) = Inr vp"
  shows "\<exists>m' c. Update2 L m (runStepStreamed s oc) = Inr (m', c) \<and>
           termContent m' = termContent m @ segment (steps m ! nat (currentStep m)) oc \<and> viewport m' = vp"
proof (cases "snd oc")
  case (Some er)
  then have oc: "oc = (fst oc, Some er)" by (cases oc) simp
  from sh oc have "Update2_show L (viewport m)
      (termContent m @ segment (steps m ! nat (currentStep m)) (fst oc, Some er)) = Inr vp" by simp
  from Update2_streamed_fail [OF b(1,2) this, of s]
  have "\<exists>m' c. Update2 L m (runStepStreamed s (fst oc, Some er)) = Inr (m', c) \<and>
           termContent m' = termContent m @ segment (steps m ! nat (currentStep m)) oc \<and> viewport m' = vp"
    by simp
  with oc show ?thesis by simp
next
  case None
  show ?thesis
  proof (cases "currentStep m + 1 = int (length (steps m))")
    case True
    from Update2_streamed_last [OF b(1) True b(3) None sh, of s] show ?thesis by simp
  next
    case False
    with b have lt: "currentStep m + 1 < int (length (steps m))" by simp
    from Update2_streamed_next [OF b(1) lt b(3) None sh, of s] show ?thesis by simp
  qed
qed

lemma drive2_transcript:
  assumes "viewport_sound L" and "2 \<le> vp_Height (viewport m)"
    and "0 \<le> currentStep m" and "currentStep m < int (length (steps m))" and "length (steps m) \<le> 10"
    and "started c = [steps m ! nat (currentStep m)]"
  shows "\<exists>mf ex. drive (Update2 L) runStepStreamed m c ocs = Inr (mf, ex) \<and>
     termContent mf = termContent m @ concat (map2 segment ex ocs) \<and>
     prefix ex (drop (nat (currentStep m)) (steps m))"
  using assms
proof (induction ocs arbitrary: m c)
  case Nil
  show ?case by simp
next
  case (Cons oc ocs)
  let ?s = "steps m ! nat (currentStep m)"
  from viewport_soundD [OF Cons.prems(1,2)]
  obtain vp where sh: "Update2_show L (viewport m) (termContent m @ segment ?s oc) = Inr vp"
    and h: "vp_Height vp = vp_Height (viewport m)" by blast
  from Cons.prems have lt: "nat (currentStep m) < length (steps m)" by simp
  have dr: "drop (nat (currentStep m)) (steps m) = ?s # drop (Suc (nat (currentStep m))) (steps m)"
    using Cons_nth_drop_Suc [OF lt] by simp
  have stop: "\<exists>mf ex. drive (Update2 L) runStepStreamed m c (oc # ocs) = Inr (mf, ex) \<and>
     termContent mf = termContent m @ concat (map2 segment ex (oc # ocs)) \<and>
     prefix ex (drop (nat (currentStep m)) (steps m))"
    if u: "Update2 L m (runStepStreamed ?s oc) = Inr (m1, Cmd_nil)"
      and t: "termContent m1 = termContent m @ segment ?s oc" for m1
  proof -
    from u Cons.prems(6) have "drive (Update2 L) runStepStreamed m c (oc # ocs) = Inr (m1, [?s])"
      by (simp add: drive_stopped)
    moreover have "termContent m1 = termContent m @ concat (map2 segment [?s] (oc # ocs))"
      using t by simp
    moreover have "prefix [?s] (drop (nat (currentStep m)) (steps m))"
      by (subst dr) simp
    ultimately show ?thesis by blast
  qed
  show ?case
  proof (cases "snd oc")
    case (Some er)
    then have oc: "oc = (fst oc, Some er)" by (cases oc) simp
    let ?m1 = "m\<lparr>state := stateDone, err := Some er, viewport := vp,
                 termContent := termContent m @ segment ?s oc\<rparr>"
    from sh oc have "Update2_show L (viewport m) (termContent m @ segment ?s (fst oc, Some er)) = Inr vp"
      by simp
    from Update2_streamed_fail [OF Cons.prems(3,4) this, of ?s]
    have "Update2 L m (runStepStreamed ?s (fst oc, Some er)) = Inr (?m1, Cmd_nil)"
      by simp
    with oc have u: "Update2 L m (runStepStreamed ?s oc) = Inr (?m1, Cmd_nil)" by simp
    show ?thesis by (rule stop [OF u]) simp
  next
    case None
    show ?thesis
    proof (cases "currentStep m + 1 = int (length (steps m))")
      case True
      let ?m1 = "m\<lparr>currentStep := currentStep m + 1, state := stateDone, logMsg := ''Process Completed.'',
                 viewport := vp, termContent := termContent m @ segment ?s oc\<rparr>"
      from Update2_streamed_last [OF Cons.prems(3) True Cons.prems(5) None sh, of ?s]
      have u: "Update2 L m (runStepStreamed ?s oc) = Inr (?m1, Cmd_nil)" .
      show ?thesis by (rule stop [OF u]) simp
    next
      case False
      with Cons.prems have lt1: "currentStep m + 1 < int (length (steps m))" by simp
      let ?c = "Cmd_runStepStreamed (steps m ! nat (currentStep m + 1))"
      let ?m1 = "m\<lparr>currentStep := currentStep m + 1, viewport := vp,
                 termContent := termContent m @ segment ?s oc\<rparr>"
      from Update2_streamed_next [OF Cons.prems(3) lt1 Cons.prems(5) None sh, of ?s]
      have u: "Update2 L m (runStepStreamed ?s oc) = Inr (?m1, ?c)" .
      have "\<exists>mf ex. drive (Update2 L) runStepStreamed ?m1 ?c ocs = Inr (mf, ex) \<and>
         termContent mf = termContent ?m1 @ concat (map2 segment ex ocs) \<and>
         prefix ex (drop (nat (currentStep ?m1)) (steps ?m1))"
        using Cons.prems lt1 h by (intro Cons.IH) simp_all
      then obtain mf ex where d: "drive (Update2 L) runStepStreamed ?m1 ?c ocs = Inr (mf, ex)"
        and tf: "termContent mf = termContent ?m1 @ concat (map2 segment ex ocs)"
        and ex: "prefix ex (drop (nat (currentStep ?m1)) (steps ?m1))"
        by blast
      from Cons.prems(3) have n: "nat (currentStep m + 1) = Suc (nat (currentStep m))" by simp
      from ex have ex': "prefix ex (drop (Suc (nat (currentStep m))) (steps m))"
        by (simp add: n)
      from Cons.prems(6) u d have "drive (Update2 L) runStepStreamed m c (oc # ocs) = Inr (mf, ?s # ex)"
        by simp
      moreover from tf have "termContent mf = termContent m @ concat (map2 segment (?s # ex) (oc # ocs))"
        by simp
      moreover from ex' have "prefix (?s # ex) (drop (nat (currentStep m)) (steps m))"
        by (subst dr) simp
      ultimately show ?thesis by blast
    qed
  qed
qed

lemma drive2_fail:
  assumes "viewport_sound L" and "2 \<le> vp_Height (viewport m)"
    and "0 \<le> currentStep m" and "currentStep m + int (length oks) < int (length (steps m))"
    and "length (steps m) \<le> 10" and "\<forall>oc\<in>set oks. snd oc = None"
    and "started c = [steps m ! nat (currentStep m)]"
  shows "\<exists>mf. drive (Update2 L) runStepStreamed m c (oks @ (out, Some e) # rest) =
      Inr (mf, take (Suc (length oks)) (drop (nat (currentStep m)) (steps m))) \<and>
    state mf = stateDone \<and> currentStep mf = currentStep m + int (length oks) \<and> err mf = Some e \<and>
    steps mf = steps m \<and>
    termContent mf = termContent m @
      concat (map2 segment (take (Suc (length oks)) (drop (nat (currentStep m)) (steps m)))
                (oks @ [(out, Some e)]))"
  using assms
proof (induction oks arbitrary: m c)
  case Nil
  let ?s = "steps m ! nat (currentStep m)"
  from Nil have b: "0 \<le> currentStep m" "currentStep m < int (length (steps m))" by simp_all
  then have lt: "nat (currentStep m) < length (steps m)" by simp
  have tk: "take (Suc 0) (drop (nat (currentStep m)) (steps m)) = [?s]"
    using lt by (simp add: take_Suc hd_drop_conv_nth)
  from viewport_soundD [OF Nil.prems(1,2)]
  obtain vp where sh: "Update2_show L (viewport m) (termContent m @ segment ?s (out, Some e)) = Inr vp"
    by blast
  from Update2_streamed_fail [OF b sh, of ?s] Nil.prems(7)
  show ?case by (simp add: drive_stopped tk)
next
  case (Cons oc oks)
  let ?s = "steps m ! nat (currentStep m)"
  from viewport_soundD [OF Cons.prems(1,2)]
  obtain vp where sh: "Update2_show L (viewport m) (termContent m @ segment ?s oc) = Inr vp"
    and h: "vp_Height vp = vp_Height (viewport m)" by blast
  let ?c = "Cmd_runStepStreamed (steps m ! nat (currentStep m + 1))"
  let ?m1 = "m\<lparr>currentStep := currentStep m + 1, viewport := vp,
             termContent := termContent m @ segment ?s oc\<rparr>"
  from Cons.prems have b: "0 \<le> currentStep m" "currentStep m + 1 < int (length (steps m))"
    "length (steps m) \<le> 10" and oc: "snd oc = None" by simp_all
  from Update2_streamed_next [OF b oc sh, of ?s]
  have u: "Update2 L m (runStepStreamed ?s oc) = Inr (?m1, ?c)" .
  have "\<exists>mf. drive (Update2 L) runStepStreamed ?m1 ?c (oks @ (out, Some e) # rest) =
      Inr (mf, take (Suc (length oks)) (drop (nat (currentStep ?m1)) (steps ?m1))) \<and>
    state mf = stateDone \<and> currentStep mf = currentStep ?m1 + int (length oks) \<and> err mf = Some e \<and>
    steps mf = steps ?m1 \<and>
    termContent mf = termContent ?m1 @
      concat (map2 segment (take (Suc (length oks)) (drop (nat (currentStep ?m1)) (steps ?m1)))
                (oks @ [(out, Some e)]))"
    using Cons.prems h by (intro Cons.IH) simp_all
  then obtain mf where
    d: "drive (Update2 L) runStepStreamed ?m1 ?c (oks @ (out, Some e) # rest) =
      Inr (mf, take (Suc (length oks)) (drop (nat (currentStep m + 1)) (steps m)))"
    and f: "state mf = stateDone" "currentStep mf = currentStep m + 1 + int (length oks)"
      "err mf = Some e" "steps mf = steps m"
    and t: "termContent mf = termContent m @ segment ?s oc @
      concat (map2 segment (take (Suc (length oks)) (drop (nat (currentStep m + 1)) (steps m)))
                (oks @ [(out, Some e)]))"
    by auto
  from b have lt: "nat (currentStep m) < length (steps m)" by simp
  from b have n: "nat (currentStep m + 1) = Suc (nat (currentStep m))" by simp
  have tk: "take (Suc (Suc (length oks))) (drop (nat (currentStep m)) (steps m)) =
      ?s # take (Suc (length oks)) (drop (nat (currentStep m + 1)) (steps m))"
    using take_drop_step [OF lt, of "Suc (length oks)"] by (simp only: n)
  from Cons.prems(7) u d
  have "drive (Update2 L) runStepStreamed m c ((oc # oks) @ (out, Some e) # rest) =
      Inr (mf, take (Suc (length (oc # oks))) (drop (nat (currentStep m)) (steps m)))"
    by (simp add: tk del: take_Suc_Cons)
  moreover from t have "termContent mf = termContent m @
      concat (map2 segment (take (Suc (length (oc # oks))) (drop (nat (currentStep m)) (steps m)))
                ((oc # oks) @ [(out, Some e)]))"
    by (simp add: tk del: take_Suc_Cons)
  moreover from f have "currentStep mf = currentStep m + int (length (oc # oks))" by simp
  ultimately show ?case using f by blast
qed

lemma Update2_external_log:
  assumes e: "external msg" and u: "Update2 L m msg = Inr (m', c)"
  shows "termContent m' = termContent m \<or>
         state m = stateMenu \<and> msg = KeyMsg ''enter'' \<and> state m' = stateRunning \<and> termContent m' = []"
proof (cases msg)
  case (KeyMsg k)
  with u have "Update2_key L m k = Inr (m', c)" by (simp add: Update2_def)
  from Update2_key_cases [OF this] KeyMsg show ?thesis by auto
next
  case (WindowSizeMsg w h)
  with u show ?thesis by (auto simp: Update2_def Update2_tail_eq)
next
  case (TickMsg t)
  with u show ?thesis by (auto simp: Update2_def Update2_tail_eq split: if_splits prod.splits)
next
  case (OtherMsg n)
  with u show ?thesis by (auto simp: Update2_def Update2_tail_eq)
next
  case (stepFinishedMsg x)
  with e show ?thesis by simp
next
  case (stepLogAndFinishMsg x y)
  with e show ?thesis by simp
qed

lemma run2_fails:
  assumes v: "viewport_sound L" and h: "2 \<le> vp_Height (viewport m)"
    and s: "state m = stateMenu" and c: "cursor m = 0 \<or> cursor m = 1 \<or> cursor m = 2"
    and l: "length oks < length (getSteps2 (cursor m))" and ok: "\<forall>oc\<in>set oks. snd oc = None"
  shows "\<exists>m0 c0 mf. Update2 L m (KeyMsg ''enter'') = Inr (m0, c0) \<and>
        drive (Update2 L) runStepStreamed m0 c0 (oks @ (out, Some e) # rest) =
          Inr (mf, take (Suc (length oks)) (getSteps2 (cursor m))) \<and>
        state mf = stateDone \<and> currentStep mf = int (length oks) \<and> err mf = Some e \<and>
        termContent mf =
          concat (map2 segment (take (Suc (length oks)) (getSteps2 (cursor m))) (oks @ [(out, Some e)]))"
proof -
  let ?m0 = "m\<lparr>state := stateRunning, currentStep := 0, err := None, termContent := [],
               steps := getSteps2 (cursor m)\<rparr>"
  let ?c0 = "Cmd_Batch [Cmd_Tick, Cmd_runStepStreamed (hd (getSteps2 (cursor m)))]"
  from c have c3: "cursor m \<noteq> 3" and c02: "0 \<le> cursor m" "cursor m \<le> 2" by auto
  from l have n: "getSteps2 (cursor m) \<noteq> []" by auto
  from getSteps2_length [OF c02] have l10: "length (steps ?m0) \<le> 10" by simp
  have st: "started ?c0 = [steps ?m0 ! nat (currentStep ?m0)]"
    using n by (simp add: hd_conv_nth)
  have "\<exists>mf. drive (Update2 L) runStepStreamed ?m0 ?c0 (oks @ (out, Some e) # rest) =
      Inr (mf, take (Suc (length oks)) (drop (nat (currentStep ?m0)) (steps ?m0))) \<and>
    state mf = stateDone \<and> currentStep mf = currentStep ?m0 + int (length oks) \<and> err mf = Some e \<and>
    steps mf = steps ?m0 \<and>
    termContent mf = termContent ?m0 @
      concat (map2 segment (take (Suc (length oks)) (drop (nat (currentStep ?m0)) (steps ?m0)))
                (oks @ [(out, Some e)]))"
    using v h l l10 ok st by (intro drive2_fail) simp_all
  with Update2_enter [OF s c3 n, of L] show ?thesis by simp blast
qed

lemma run2_transcript:
  assumes v: "viewport_sound L" and h: "2 \<le> vp_Height (viewport m)"
    and s: "state m = stateMenu" and c: "cursor m = 0 \<or> cursor m = 1 \<or> cursor m = 2"
  shows "\<exists>m0 c0 mf ex. Update2 L m (KeyMsg ''enter'') = Inr (m0, c0) \<and> termContent m0 = [] \<and>
     drive (Update2 L) runStepStreamed m0 c0 ocs = Inr (mf, ex) \<and>
     prefix ex (getSteps2 (cursor m)) \<and> termContent mf = concat (map2 segment ex ocs)"
proof -
  let ?m0 = "m\<lparr>state := stateRunning, currentStep := 0, err := None, termContent := [],
               steps := getSteps2 (cursor m)\<rparr>"
  let ?c0 = "Cmd_Batch [Cmd_Tick, Cmd_runStepStreamed (hd (getSteps2 (cursor m)))]"
  from c have c3: "cursor m \<noteq> 3" and c02: "0 \<le> cursor m" "cursor m \<le> 2" by auto
  from getSteps2_length [OF c02] have l10: "length (steps ?m0) \<le> 10" and n: "getSteps2 (cursor m) \<noteq> []"
    by auto
  have st: "started ?c0 = [steps ?m0 ! nat (currentStep ?m0)]"
    using n by (simp add: hd_conv_nth)
  have "\<exists>mf ex. drive (Update2 L) runStepStreamed ?m0 ?c0 ocs = Inr (mf, ex) \<and>
     termContent mf = termContent ?m0 @ concat (map2 segment ex ocs) \<and>
     prefix ex (drop (nat (currentStep ?m0)) (steps ?m0))"
    using v h l10 st n by (intro drive2_transcript) simp_all
  with Update2_enter [OF s c3 n, of L] show ?thesis by simp blast
qed

section \<open>The concrete library and the concrete runs\<close>

lemma Update2_show_lib0:
  "Update2_show lib0 vp content =
     (if vp_Height vp < frame_rows vp then Inl SliceBoundsOutOfRange
      else Inr (vp\<lparr>vp_inner := length content\<rparr>))"
  by (simp add: Update2_show_def lib0_def frame_rows_def)

lemma viewport_sound_lib0: "viewport_sound lib0"
  by (simp add: viewport_sound_def Update2_show_lib0 frame_rows_def)

lemma sized2_fields:
  "state sized2 = stateMenu" "cursor sized2 = 0" "vp_Height (viewport sized2) = 8"
  "termContent sized2 = []" "frame_rows (viewport sized2) = 2"
  by (simp_all add: sized2_def initialModel2_def frame_rows_def)

lemma running_install2_fields:
  "state running_install2 = stateRunning" "currentStep running_install2 = 0"
  "steps running_install2 = getSteps2 0" "termContent running_install2 = []"
  "vp_Height (viewport running_install2) = 8" "frame_rows (viewport running_install2) = 2"
  "err running_install2 = None"
  by (simp_all add: running_install2_def sized2_def initialModel2_def frame_rows_def)

lemma getSteps2_0_hd:
  "getSteps2 0 \<noteq> []" "hd (getSteps2 0) = step ''Installing Group Tools...'' DEPS_CMD"
  "getSteps2 0 ! 0 = step ''Installing Group Tools...'' DEPS_CMD" "length (getSteps2 0) = 10"
  "getSteps2 0 ! Suc 0 = step ''Installing Deps (GLU/Curl/X11)...'' DEPS_PKGS2"
  by (simp_all add: getSteps2_def)

lemma resize_initial2:
  "Update2 lib0 (initialModel2 lib0) (WindowSizeMsg 80 24) = Inr (sized2, Cmd_Batch [Cmd_nil])"
  by (simp add: Update2_def Update2_tail_eq sized2_def initialModel2_def lib0_def int64_def
      signed_divide_int_def)

lemma enter_install2:
  "Update2 lib0 sized2 (KeyMsg ''enter'') =
     Inr (running_install2, Cmd_Batch [Cmd_Tick, Cmd_runStepStreamed (step ''Installing Group Tools...'' DEPS_CMD)])"
proof -
  have c: "cursor sized2 \<noteq> 3" and g: "getSteps2 (cursor sized2) = getSteps2 0"
    by (simp_all add: sized2_fields)
  have n: "getSteps2 (cursor sized2) \<noteq> []" unfolding g by (rule getSteps2_0_hd)
  have m: "sized2\<lparr>state := stateRunning, currentStep := 0, err := None, termContent := [],
      steps := getSteps2 0\<rparr> = running_install2"
    by (simp add: running_install2_def sized2_def initialModel2_def)
  from Update2_enter [OF sized2_fields(1) c n, of lib0] show ?thesis
    by (simp only: g getSteps2_0_hd m)
qed

lemma fail_install2:
  "Update2 lib0 running_install2
      (runStepStreamed (step ''Installing Group Tools...'' DEPS_CMD) (''dnf: no network'', Some ''exit status 1''))
     = Inr (failed_install2, Cmd_nil)"
proof -
  have b: "0 \<le> currentStep running_install2"
    "currentStep running_install2 < int (length (steps running_install2))"
    by (simp_all add: running_install2_fields getSteps2_0_hd)
  have s0: "steps running_install2 ! nat (currentStep running_install2) =
      step ''Installing Group Tools...'' DEPS_CMD"
    by (simp add: running_install2_fields getSteps2_0_hd)
  have sh: "Update2_show lib0 (viewport running_install2)
      (termContent running_install2 @
         segment (steps running_install2 ! nat (currentStep running_install2))
           (''dnf: no network'', Some ''exit status 1'')) =
      Inr ((viewport running_install2)
         \<lparr>vp_inner := length (segment (step ''Installing Group Tools...'' DEPS_CMD)
                                      (''dnf: no network'', Some ''exit status 1''))\<rparr>)"
    unfolding s0 by (simp add: Update2_show_lib0 running_install2_fields)
  show ?thesis
    unfolding Update2_streamed_fail [OF b sh] s0 failed_install2_def
    by (simp add: running_install2_fields)
qed

lemma reachable2_install:
  "reachable2 lib0 (sized2, [])"
  "reachable2 lib0 (running_install2, [step ''Installing Group Tools...'' DEPS_CMD])"
  "reachable2 lib0 (failed_install2, [])"
proof -
  from r2_event [OF r2_init _ resize_initial2] show 1: "reachable2 lib0 (sized2, [])"
    by (simp add: started_def)
  from r2_event [OF 1 _ enter_install2]
  show 2: "reachable2 lib0 (running_install2, [step ''Installing Group Tools...'' DEPS_CMD])"
    by simp
  from r2_done [OF 2 _ fail_install2] show "reachable2 lib0 (failed_install2, [])"
    by simp
qed

lemma succeed_uninstall:
  "Update lib0 running_uninstall (runStep s (out, None)) =
     Inr (running_uninstall\<lparr>currentStep := 1\<rparr>,
          Cmd_runStep (step ''Removing Desktop Entry...'' ''rm -f /usr/local/share/applications/tic80.desktop''))"
  "Update lib0 (running_uninstall\<lparr>currentStep := 1\<rparr>) (runStep s (out, None)) =
     Inr (running_uninstall\<lparr>currentStep := 2\<rparr>,
          Cmd_runStep (step ''Removing Icon...'' ''rm -f /usr/local/share/icons/hicolor/scalable/apps/tic80.svg''))"
  "Update lib0 (running_uninstall\<lparr>currentStep := 2\<rparr>) (runStep s (out, None)) = Inr (done_uninstall, Cmd_nil)"
  by (simp_all add: Update_def runStep_def Update_finished_def Let_def index_def int64_def
      running_uninstall_def done_uninstall_def menu_uninstall_def initialModel_def getSteps_2)

lemma reachable_done_uninstall: "reachable lib0 (done_uninstall, [])"
proof -
  let ?s0 = "step ''Removing Binary...'' ''rm -f /usr/local/bin/tic80''"
  let ?s1 = "step ''Removing Desktop Entry...'' ''rm -f /usr/local/share/applications/tic80.desktop''"
  let ?s2 = "step ''Removing Icon...'' ''rm -f /usr/local/share/icons/hicolor/scalable/apps/tic80.svg''"
  from r_done [OF reachable_running _ succeed_uninstall(1) [of ?s0 "''removed''"]]
  have 1: "reachable lib0 (running_uninstall\<lparr>currentStep := 1\<rparr>, [?s1])" by simp
  from r_done [OF 1 _ succeed_uninstall(2) [of ?s1 "''removed''"]]
  have 2: "reachable lib0 (running_uninstall\<lparr>currentStep := 2\<rparr>, [?s2])" by simp
  from r_done [OF 2 _ succeed_uninstall(3) [of ?s2 "''removed''"]]
  show ?thesis by simp
qed

lemma Update2_streamed_panic:
  assumes "0 \<le> currentStep m" and "currentStep m < int (length (steps m))"
    and "Update2_show L (viewport m) (termContent m @ segment (steps m ! nat (currentStep m)) oc) = Inl p"
  shows "Update2 L m (runStepStreamed s oc) = Inl p"
  using assms
  by (simp add: Update2_def runStepStreamed_def Update2_finished_def index_def Let_def segment_def)

lemma unsized_install2_fields:
  "state unsized_install2 = stateRunning" "currentStep unsized_install2 = 0"
  "steps unsized_install2 = getSteps2 0" "termContent unsized_install2 = []"
  "vp_Height (viewport unsized_install2) = 0" "frame_rows (viewport unsized_install2) = 2"
  by (simp_all add: unsized_install2_def initialModel2_def frame_rows_def lib0_def)

lemma enter_unsized2:
  "Update2 lib0 (initialModel2 lib0) (KeyMsg ''enter'') =
     Inr (unsized_install2, Cmd_Batch [Cmd_Tick, Cmd_runStepStreamed (step ''Installing Group Tools...'' DEPS_CMD)])"
proof -
  have s: "state (initialModel2 lib0) = stateMenu" and c: "cursor (initialModel2 lib0) \<noteq> 3"
    and g: "getSteps2 (cursor (initialModel2 lib0)) = getSteps2 0"
    by (simp_all add: initialModel2_def)
  have n: "getSteps2 (cursor (initialModel2 lib0)) \<noteq> []" unfolding g by (rule getSteps2_0_hd)
  have m: "(initialModel2 lib0)\<lparr>state := stateRunning, currentStep := 0, err := None, termContent := [],
      steps := getSteps2 0\<rparr> = unsized_install2"
    by (simp add: unsized_install2_def initialModel2_def)
  from Update2_enter [OF s c n, of lib0] show ?thesis
    by (simp only: g getSteps2_0_hd m)
qed

lemma reachable2_unsized:
  "reachable2 lib0 (unsized_install2, [step ''Installing Group Tools...'' DEPS_CMD])"
  using r2_event [OF r2_init _ enter_unsized2] by simp

lemma show_unsized2:
  "Update2_show lib0 (viewport unsized_install2) content = Inl SliceBoundsOutOfRange"
  by (simp add: Update2_show_lib0 unsized_install2_fields)

section \<open>C1: a failed step ends the run\<close>

text \<open>
  Claim C1 as the code has it. In \<^verbatim>\<open>main.go\<close> the failure of a step moves the model to
  the Done phase with the stored error \<open>step_error\<close>, which contains the step's description
  and the captured output, and returns no command. A run started from the menu in which
  the steps before index \<open>length oks\<close> succeed and the step at that index fails ends in the
  Done phase at that index, whatever outcomes would follow, and the steps executed are
  the plan up to and including the failed step. In \<^verbatim>\<open>part_000\<close> the completion is first
  shown in the viewport; when these library calls return, the failure moves the model to
  the Done phase in the same way and returns no command, but the stored error is the
  error of the command alone: the description and the output of every executed step,
  the failed one included, are in the log text. The run of \<^verbatim>\<open>part_000\<close> is stated for a
  library whose viewport calls return on a viewport of height at least 2, and a viewport
  of such a height.
\<close>

theorem failed_step_ends_run:
  "sublist (desc s) (step_error s out) \<and> sublist out (step_error s out) \<and>
   sublist (desc s) (segment s oc) \<and> sublist (fst oc) (segment s oc) \<and>
   Update L r (runStep s (out, Some e)) =
     Inr (r\<lparr>state := stateDone, err := Some (step_error s out)\<rparr>, Cmd_nil) \<and>
   (state m = stateMenu \<and> (cursor m = 0 \<or> cursor m = 1 \<or> cursor m = 2) \<and>
    length oks < length (getSteps (cursor m)) \<and> (\<forall>ok\<in>set oks. snd ok = None) \<longrightarrow>
      (\<exists>m0 c0. Update L m (KeyMsg ''enter'') = Inr (m0, c0) \<and>
         drive (Update L) runStep m0 c0 (oks @ (out, Some e) # rest) =
           Inr (m0\<lparr>currentStep := int (length oks), state := stateDone,
                   err := Some (step_error (getSteps (cursor m) ! length oks) out)\<rparr>,
                take (Suc (length oks)) (getSteps (cursor m))))) \<and>
   (0 \<le> currentStep r2 \<and> currentStep r2 < int (length (steps r2)) \<and>
    Update2_show L (viewport r2)
      (termContent r2 @ segment (steps r2 ! nat (currentStep r2)) (out, Some e)) = Inr vp \<longrightarrow>
      Update2 L r2 (runStepStreamed s (out, Some e)) =
        Inr (r2\<lparr>state := stateDone, err := Some e, viewport := vp,
                termContent := termContent r2 @ segment (steps r2 ! nat (currentStep r2)) (out, Some e)\<rparr>,
             Cmd_nil)) \<and>
   (viewport_sound L \<and> 2 \<le> vp_Height (viewport m2) \<and>
    state m2 = stateMenu \<and> (cursor m2 = 0 \<or> cursor m2 = 1 \<or> cursor m2 = 2) \<and>
    length oks < length (getSteps2 (cursor m2)) \<and> (\<forall>ok\<in>set oks. snd ok = None) \<longrightarrow>
      (\<exists>m0 c0 mf. Update2 L m2 (KeyMsg ''enter'') = Inr (m0, c0) \<and>
         drive (Update2 L) runStepStreamed m0 c0 (oks @ (out, Some e) # rest) =
           Inr (mf, take (Suc (length oks)) (getSteps2 (cursor m2))) \<and>
         state mf = stateDone \<and> currentStep mf = int (length oks) \<and> err mf = Some e \<and>
         termContent mf =
           concat (map2 segment (take (Suc (length oks)) (getSteps2 (cursor m2))) (oks @ [(out, Some e)]))))"
proof -
  have a: "0 \<le> currentStep r2 \<and> currentStep r2 < int (length (steps r2)) \<and>
    Update2_show L (viewport r2)
      (termContent r2 @ segment (steps r2 ! nat (currentStep r2)) (out, Some e)) = Inr vp \<longrightarrow>
      Update2 L r2 (runStepStreamed s (out, Some e)) =
        Inr (r2\<lparr>state := stateDone, err := Some e, viewport := vp,
                termContent := termContent r2 @ segment (steps r2 ! nat (currentStep r2)) (out, Some e)\<rparr>,
             Cmd_nil)"
    using Update2_streamed_fail [of r2 L out e vp s] by blast
  from a step_error_contains [of s out] segment_contains [of s oc] Update_runStep_fail [of L r s out e]
    run_fails [of m oks L out e rest] run2_fails [of L m2 oks out e rest]
  show ?thesis by blast
qed

theorem failed_step_ends_run_witness:
  "state menu_uninstall = stateMenu \<and> cursor menu_uninstall = 2 \<and>
   length [(''removed'', None :: string option)] < length (getSteps 2) \<and>
   drive (Update lib0) runStep running_uninstall
       (Cmd_Batch [Cmd_Tick, Cmd_runStep (step ''Removing Binary...'' ''rm -f /usr/local/bin/tic80'')])
       ([(''removed'', None)] @ (''rm: busy'', Some ''exit status 1'') # [(''never run'', None)]) =
     Inr (running_uninstall\<lparr>currentStep := 1, state := stateDone,
            err := Some (step_error (step ''Removing Desktop Entry...''
                     ''rm -f /usr/local/share/applications/tic80.desktop'') ''rm: busy'')\<rparr>,
          [step ''Removing Binary...'' ''rm -f /usr/local/bin/tic80'',
           step ''Removing Desktop Entry...'' ''rm -f /usr/local/share/applications/tic80.desktop'']) \<and>
   drive (Update lib0) runStep running_uninstall
       (Cmd_Batch [Cmd_Tick, Cmd_runStep (step ''Removing Binary...'' ''rm -f /usr/local/bin/tic80'')])
       ([] @ (''rm: busy'', Some ''exit status 1'') # [(''never run'', None)]) =
     Inr (running_uninstall\<lparr>state := stateDone,
            err := Some (step_error (step ''Removing Binary...'' ''rm -f /usr/local/bin/tic80'') ''rm: busy'')\<rparr>,
          [step ''Removing Binary...'' ''rm -f /usr/local/bin/tic80'']) \<and>
   currentStep running_uninstall = 0 \<and>
   viewport_sound lib0 \<and> vp_Height (viewport sized2) = 8 \<and>
   state sized2 = stateMenu \<and> cursor sized2 = 0 \<and>
   length [(''removed'', None :: string option)] < length (getSteps2 0) \<and>
   (\<exists>mf. drive (Update2 lib0) runStepStreamed running_install2
       (Cmd_Batch [Cmd_Tick, Cmd_runStepStreamed (step ''Installing Group Tools...'' DEPS_CMD)])
       ([(''removed'', None)] @ (''rm: busy'', Some ''exit status 1'') # [(''never run'', None)]) =
         Inr (mf, [step ''Installing Group Tools...'' DEPS_CMD,
                   step ''Installing Deps (GLU/Curl/X11)...'' DEPS_PKGS2]) \<and>
       state mf = stateDone \<and> currentStep mf = 1 \<and> err mf = Some ''exit status 1'' \<and>
       termContent mf =
         segment (step ''Installing Group Tools...'' DEPS_CMD) (''removed'', None) @
         segment (step ''Installing Deps (GLU/Curl/X11)...'' DEPS_PKGS2)
           (''rm: busy'', Some ''exit status 1'')) \<and>
   currentStep running_install2 = 0 \<and> length (steps running_install2) = 10 \<and>
   Update2_show lib0 (viewport running_install2)
      (termContent running_install2 @
         segment (steps running_install2 ! nat (currentStep running_install2))
           (''dnf: no network'', Some ''exit status 1'')) =
     Inr (viewport failed_install2) \<and>
   Update2 lib0 running_install2
      (runStepStreamed (step ''Installing Group Tools...'' DEPS_CMD) (''dnf: no network'', Some ''exit status 1''))
     = Inr (failed_install2, Cmd_nil)"
proof -
  note h = menu_uninstall_fields sized2_fields(1,2,3) viewport_sound_lib0
  have c0: "currentStep running_uninstall = 0"
    by (simp add: running_uninstall_def menu_uninstall_def initialModel_def)
  have t2: "take (Suc (Suc 0)) (getSteps2 0) =
      [step ''Installing Group Tools...'' DEPS_CMD, step ''Installing Deps (GLU/Curl/X11)...'' DEPS_PKGS2]"
    by (simp add: getSteps2_def)
  from failed_step_ends_run [where L = lib0 and m = menu_uninstall and ?m2.0 = sized2
      and oks = "[(''removed'', None)]"
      and out = "''rm: busy''" and e = "''exit status 1''" and rest = "[(''never run'', None)]"] h
  have a: "drive (Update lib0) runStep running_uninstall
       (Cmd_Batch [Cmd_Tick, Cmd_runStep (step ''Removing Binary...'' ''rm -f /usr/local/bin/tic80'')])
       ([(''removed'', None)] @ (''rm: busy'', Some ''exit status 1'') # [(''never run'', None)]) =
     Inr (running_uninstall\<lparr>currentStep := 1, state := stateDone,
            err := Some (step_error (step ''Removing Desktop Entry...''
                     ''rm -f /usr/local/share/applications/tic80.desktop'') ''rm: busy'')\<rparr>,
          [step ''Removing Binary...'' ''rm -f /usr/local/bin/tic80'',
           step ''Removing Desktop Entry...'' ''rm -f /usr/local/share/applications/tic80.desktop''])"
    and c: "\<exists>mf. drive (Update2 lib0) runStepStreamed running_install2
       (Cmd_Batch [Cmd_Tick, Cmd_runStepStreamed (step ''Installing Group Tools...'' DEPS_CMD)])
       ([(''removed'', None)] @ (''rm: busy'', Some ''exit status 1'') # [(''never run'', None)]) =
         Inr (mf, [step ''Installing Group Tools...'' DEPS_CMD,
                   step ''Installing Deps (GLU/Curl/X11)...'' DEPS_PKGS2]) \<and>
       state mf = stateDone \<and> currentStep mf = 1 \<and> err mf = Some ''exit status 1'' \<and>
       termContent mf =
         segment (step ''Installing Group Tools...'' DEPS_CMD) (''removed'', None) @
         segment (step ''Installing Deps (GLU/Curl/X11)...'' DEPS_PKGS2)
           (''rm: busy'', Some ''exit status 1'')"
    by (simp_all add: enter_uninstall enter_install2 getSteps_2 getSteps2_0_hd t2 del: drive.simps)
  from failed_step_ends_run [where L = lib0 and m = menu_uninstall and oks = "[]"
      and out = "''rm: busy''" and e = "''exit status 1''" and rest = "[(''never run'', None)]"] h
  have b: "drive (Update lib0) runStep running_uninstall
       (Cmd_Batch [Cmd_Tick, Cmd_runStep (step ''Removing Binary...'' ''rm -f /usr/local/bin/tic80'')])
       ([] @ (''rm: busy'', Some ''exit status 1'') # [(''never run'', None)]) =
     Inr (running_uninstall\<lparr>state := stateDone,
            err := Some (step_error (step ''Removing Binary...'' ''rm -f /usr/local/bin/tic80'') ''rm: busy'')\<rparr>,
          [step ''Removing Binary...'' ''rm -f /usr/local/bin/tic80''])"
    by (simp add: enter_uninstall getSteps_2 c0 del: drive.simps)
  have l: "length [(''removed'', None :: string option)] < length (getSteps 2)"
    "length [(''removed'', None :: string option)] < length (getSteps2 0)"
    by (simp_all add: getSteps_2 getSteps2_0_hd)
  have sh: "Update2_show lib0 (viewport running_install2)
      (termContent running_install2 @
         segment (steps running_install2 ! nat (currentStep running_install2))
           (''dnf: no network'', Some ''exit status 1'')) =
     Inr (viewport failed_install2)"
    by (simp add: Update2_show_lib0 running_install2_fields failed_install2_def getSteps2_0_hd)
  have r: "currentStep running_install2 = 0" "length (steps running_install2) = 10"
    by (simp_all add: running_install2_fields getSteps2_0_hd)
  from failed_step_ends_run [where L = lib0 and ?r2.0 = running_install2
      and s = "step ''Installing Group Tools...'' DEPS_CMD"
      and out = "''dnf: no network''" and e = "''exit status 1''" and vp = "viewport failed_install2"] sh r
  have d: "Update2 lib0 running_install2
      (runStepStreamed (step ''Installing Group Tools...'' DEPS_CMD) (''dnf: no network'', Some ''exit status 1''))
     = Inr (failed_install2, Cmd_nil)"
    by (simp add: failed_install2_def running_install2_fields getSteps2_0_hd)
  from h l a b c c0 sh r d show ?thesis by blast
qed

text \<open>
  Claim C1 as stated fails in \<^verbatim>\<open>part_000\<close>: on a terminal of 80 columns and 24 rows, when
  the first step of Install fails, the stored error is the text "exit status 1", which
  contains neither the description of the step nor the captured output.
\<close>

theorem failed_step_ends_run_counterexample:
  "reachable2 lib0 (running_install2, [step ''Installing Group Tools...'' DEPS_CMD]) \<and>
   Update2 lib0 running_install2
      (runStepStreamed (step ''Installing Group Tools...'' DEPS_CMD)
         (''dnf: no network'', Some ''exit status 1'')) = Inr (failed_install2, Cmd_nil) \<and>
   state failed_install2 = stateDone \<and> err failed_install2 = Some ''exit status 1'' \<and>
   \<not> sublist ''Installing Group Tools...'' ''exit status 1'' \<and>
   \<not> sublist ''dnf: no network'' ''exit status 1''"
proof -
  have e: "state failed_install2 = stateDone" "err failed_install2 = Some ''exit status 1''"
    by (simp_all add: failed_install2_def)
  have n1: "\<not> sublist ''Installing Group Tools...'' ''exit status 1''" by code_simp
  have n2: "\<not> sublist ''dnf: no network'' ''exit status 1''" by code_simp
  from reachable2_install(2) fail_install2 e n1 n2 show ?thesis by blast
qed

section \<open>C2: the log text\<close>

text \<open>
  Claim C2 as the code has it. In \<^verbatim>\<open>part_000\<close>, in every reachable configuration, a
  step in flight means the Running phase. Its completion, with any outcome, first shows
  the log text with the step's segment (description and captured output) appended in the
  viewport: when these library calls return, the completion is handled and the log text
  of the new model is the old one with the segment appended; when they panic, the
  completion panics; so whenever the completion is handled the segment has been
  appended. Every other message leaves the log text as it was, except enter in the Menu
  phase starting a run, which empties it. So, for a library whose viewport calls return
  on a viewport of height at least 2 and a viewport of such a height, after a run started
  from the menu and driven by any outcomes the log text is the concatenation, in order,
  of the segments of the executed steps, which are an initial part of the plan.
  \<^verbatim>\<open>main.go\<close> keeps no log: its completion message leaves \<open>logMsg\<close> as it was, except that
  the success of the last step replaces it by "Process Completed.".
\<close>

theorem log_transcript:
  "(reachable2 L (m2, fl) \<and> s \<in> set fl \<longrightarrow> state m2 = stateRunning) \<and>
   (reachable2 L (m2, fl) \<and> s \<in> set fl \<and>
    Update2_show L (viewport m2) (termContent m2 @ segment s oc) = Inr vp \<longrightarrow>
      (\<exists>m' c. Update2 L m2 (runStepStreamed s oc) = Inr (m', c) \<and>
         termContent m' = termContent m2 @ segment s oc \<and> viewport m' = vp)) \<and>
   (reachable2 L (m2, fl) \<and> s \<in> set fl \<and>
    Update2_show L (viewport m2) (termContent m2 @ segment s oc) = Inl p \<longrightarrow>
      Update2 L m2 (runStepStreamed s oc) = Inl p) \<and>
   (reachable2 L (m2, fl) \<and> s \<in> set fl \<and> Update2 L m2 (runStepStreamed s oc) = Inr (n', d) \<longrightarrow>
      termContent n' = termContent m2 @ segment s oc) \<and>
   (external msg \<and> Update2 L r2 msg = Inr (r2', c2) \<longrightarrow>
      termContent r2' = termContent r2 \<or>
      state r2 = stateMenu \<and> msg = KeyMsg ''enter'' \<and> state r2' = stateRunning \<and> termContent r2' = []) \<and>
   (viewport_sound L \<and> 2 \<le> vp_Height (viewport n2) \<and>
    state n2 = stateMenu \<and> (cursor n2 = 0 \<or> cursor n2 = 1 \<or> cursor n2 = 2) \<longrightarrow>
      (\<exists>m0 c0 mf ex. Update2 L n2 (KeyMsg ''enter'') = Inr (m0, c0) \<and> termContent m0 = [] \<and>
         drive (Update2 L) runStepStreamed m0 c0 ocs = Inr (mf, ex) \<and>
         prefix ex (getSteps2 (cursor n2)) \<and> termContent mf = concat (map2 segment ex ocs))) \<and>
   (Update L r (stepFinishedMsg e) = Inr (r', c1) \<longrightarrow>
      logMsg r' = logMsg r \<or> e = None \<and> state r' = stateDone \<and> logMsg r' = ''Process Completed.'')"
proof -
  have i: "state m2 = stateRunning \<and> 0 \<le> currentStep m2 \<and> currentStep m2 < int (length (steps m2)) \<and>
      length (steps m2) \<le> 10 \<and> s = steps m2 ! nat (currentStep m2)"
    if r: "reachable2 L (m2, fl)" and f: "s \<in> set fl"
  proof -
    from reachable2_inv [OF r] have "config_inv m2 fl" by simp
    from config_inv_in_flight [OF this f] show ?thesis by simp
  qed
  have a: "reachable2 L (m2, fl) \<and> s \<in> set fl \<longrightarrow> state m2 = stateRunning"
    using i by blast
  have b: "\<exists>m' c. Update2 L m2 (runStepStreamed s oc) = Inr (m', c) \<and>
         termContent m' = termContent m2 @ segment s oc \<and> viewport m' = w"
    if r: "reachable2 L (m2, fl)" and f: "s \<in> set fl"
      and sh: "Update2_show L (viewport m2) (termContent m2 @ segment s oc) = Inr w" for w
  proof -
    from i [OF r f] have bs: "0 \<le> currentStep m2" "currentStep m2 < int (length (steps m2))"
      "length (steps m2) \<le> 10" and s: "s = steps m2 ! nat (currentStep m2)" by simp_all
    from sh s have "Update2_show L (viewport m2)
        (termContent m2 @ segment (steps m2 ! nat (currentStep m2)) oc) = Inr w" by simp
    from Update2_streamed_append [OF bs this, of s] s show ?thesis by simp
  qed
  have c: "Update2 L m2 (runStepStreamed s oc) = Inl p"
    if r: "reachable2 L (m2, fl)" and f: "s \<in> set fl"
      and sh: "Update2_show L (viewport m2) (termContent m2 @ segment s oc) = Inl p"
  proof -
    from i [OF r f] have bs: "0 \<le> currentStep m2" "currentStep m2 < int (length (steps m2))"
      and s: "s = steps m2 ! nat (currentStep m2)" by simp_all
    from sh s have "Update2_show L (viewport m2)
        (termContent m2 @ segment (steps m2 ! nat (currentStep m2)) oc) = Inl p" by simp
    from Update2_streamed_panic [OF bs this] show ?thesis .
  qed
  have d: "termContent n' = termContent m2 @ segment s oc"
    if r: "reachable2 L (m2, fl)" and f: "s \<in> set fl"
      and u: "Update2 L m2 (runStepStreamed s oc) = Inr (n', d)"
  proof -
    from i [OF r f] have s: "s = steps m2 ! nat (currentStep m2)" by simp
    from u have "Update2_finished L m2 (fst oc) (snd oc) = Inr (n', d)"
      by (simp add: Update2_def runStepStreamed_def)
    from Update2_finished_shown [OF this] s
    have "Update2_show L (viewport m2) (termContent m2 @ segment s oc) = Inr (viewport n')" by simp
    from b [OF r f this] u show ?thesis by simp
  qed
  from a b c d Update2_external_log [of msg L r2 r2' c2] run2_transcript [of L n2 ocs]
    Update_finished_log [of L r e r' c1]
  show ?thesis by blast
qed

theorem log_transcript_witness:
  "reachable2 lib0 (running_install2, [step ''Installing Group Tools...'' DEPS_CMD]) \<and>
   state running_install2 = stateRunning \<and> termContent running_install2 = [] \<and>
   Update2_show lib0 (viewport running_install2)
       (termContent running_install2 @ segment (step ''Installing Group Tools...'' DEPS_CMD) (''Complete!'', None)) =
     Inr ((viewport running_install2)
            \<lparr>vp_inner := length (segment (step ''Installing Group Tools...'' DEPS_CMD) (''Complete!'', None))\<rparr>) \<and>
   (\<exists>m' c. Update2 lib0 running_install2
        (runStepStreamed (step ''Installing Group Tools...'' DEPS_CMD) (''Complete!'', None)) = Inr (m', c) \<and>
      termContent m' = segment (step ''Installing Group Tools...'' DEPS_CMD) (''Complete!'', None)) \<and>
   Update2 lib0 running_install2
      (runStepStreamed (step ''Installing Group Tools...'' DEPS_CMD) (''dnf: no network'', Some ''exit status 1''))
     = Inr (failed_install2, Cmd_nil) \<and>
   termContent failed_install2 =
     termContent running_install2 @
       segment (step ''Installing Group Tools...'' DEPS_CMD) (''dnf: no network'', Some ''exit status 1'') \<and>
   reachable2 lib0 (unsized_install2, [step ''Installing Group Tools...'' DEPS_CMD]) \<and>
   Update2_show lib0 (viewport unsized_install2)
       (termContent unsized_install2 @ segment (step ''Installing Group Tools...'' DEPS_CMD) (''Complete!'', None)) =
     Inl SliceBoundsOutOfRange \<and>
   Update2 lib0 unsized_install2
       (runStepStreamed (step ''Installing Group Tools...'' DEPS_CMD) (''Complete!'', None)) =
     Inl SliceBoundsOutOfRange \<and>
   external (KeyMsg ''tab'') \<and>
   Update2 lib0 running_install2 (KeyMsg ''tab'') = Inr (running_install2\<lparr>showTerm := True\<rparr>, Cmd_nil) \<and>
   termContent (running_install2\<lparr>showTerm := True\<rparr>) = termContent running_install2 \<and>
   viewport_sound lib0 \<and> vp_Height (viewport sized2) = 8 \<and>
   state sized2 = stateMenu \<and> cursor sized2 = 0 \<and>
   (\<exists>mf ex. drive (Update2 lib0) runStepStreamed running_install2
        (Cmd_Batch [Cmd_Tick, Cmd_runStepStreamed (step ''Installing Group Tools...'' DEPS_CMD)])
        [(''a'', None), (''b'', Some ''exit status 1''), (''c'', None)] = Inr (mf, ex) \<and>
      prefix ex (getSteps2 0) \<and>
      termContent mf = concat (map2 segment ex [(''a'', None), (''b'', Some ''exit status 1''), (''c'', None)])) \<and>
   Update lib0 running_uninstall (stepFinishedMsg None) =
     Inr (running_uninstall\<lparr>currentStep := 1\<rparr>,
          Cmd_runStep (step ''Removing Desktop Entry...'' ''rm -f /usr/local/share/applications/tic80.desktop'')) \<and>
   logMsg (running_uninstall\<lparr>currentStep := 1\<rparr>) = logMsg running_uninstall"
proof -
  let ?s0 = "step ''Installing Group Tools...'' DEPS_CMD"
  have t: "Update2 lib0 running_install2 (KeyMsg ''tab'') = Inr (running_install2\<lparr>showTerm := True\<rparr>, Cmd_nil)"
    by (simp add: Update2_def Update2_key_def running_install2_def sized2_def initialModel2_def)
  note f = running_install2_fields(1,4)
  have sh: "Update2_show lib0 (viewport running_install2)
       (termContent running_install2 @ segment ?s0 (''Complete!'', None)) =
     Inr ((viewport running_install2)\<lparr>vp_inner := length (segment ?s0 (''Complete!'', None))\<rparr>)"
    by (simp add: Update2_show_lib0 running_install2_fields)
  have sp: "Update2_show lib0 (viewport unsized_install2)
       (termContent unsized_install2 @ segment ?s0 (''Complete!'', None)) = Inl SliceBoundsOutOfRange"
    by (rule show_unsized2)
  from log_transcript [where L = lib0 and ?m2.0 = running_install2 and fl = "[?s0]" and s = ?s0
      and oc = "(''Complete!'', None)"
      and vp = "(viewport running_install2)\<lparr>vp_inner := length (segment ?s0 (''Complete!'', None))\<rparr>"
      and msg = "KeyMsg ''tab''" and ?r2.0 = running_install2
      and ?r2' = "running_install2\<lparr>showTerm := True\<rparr>" and ?c2.0 = Cmd_nil]
    reachable2_install(2) t f sh
  have a0: "\<exists>m' c. Update2 lib0 running_install2
        (runStepStreamed ?s0 (''Complete!'', None)) = Inr (m', c) \<and>
      termContent m' = segment ?s0 (''Complete!'', None) \<and>
      viewport m' = (viewport running_install2)\<lparr>vp_inner := length (segment ?s0 (''Complete!'', None))\<rparr>"
    and b: "termContent (running_install2\<lparr>showTerm := True\<rparr>) = termContent running_install2"
    by simp_all
  from a0 have a: "\<exists>m' c. Update2 lib0 running_install2
        (runStepStreamed ?s0 (''Complete!'', None)) = Inr (m', c) \<and>
      termContent m' = segment ?s0 (''Complete!'', None)"
    by blast
  from log_transcript [where L = lib0 and ?m2.0 = running_install2 and fl = "[?s0]" and s = ?s0
      and oc = "(''dnf: no network'', Some ''exit status 1'')" and n' = failed_install2 and d = Cmd_nil]
    reachable2_install(2) fail_install2
  have g: "termContent failed_install2 =
     termContent running_install2 @ segment ?s0 (''dnf: no network'', Some ''exit status 1'')"
    by simp
  from log_transcript [where L = lib0 and ?m2.0 = unsized_install2 and fl = "[?s0]" and s = ?s0
      and oc = "(''Complete!'', None)" and p = SliceBoundsOutOfRange]
    reachable2_unsized sp
  have k: "Update2 lib0 unsized_install2 (runStepStreamed ?s0 (''Complete!'', None)) =
     Inl SliceBoundsOutOfRange"
    by simp
  have u: "Update lib0 running_uninstall (stepFinishedMsg None) =
     Inr (running_uninstall\<lparr>currentStep := 1\<rparr>,
          Cmd_runStep (step ''Removing Desktop Entry...'' ''rm -f /usr/local/share/applications/tic80.desktop''))"
    by (simp add: Update_def Update_finished_def running_uninstall_def menu_uninstall_def
        initialModel_def getSteps_def int64_def index_def)
  from log_transcript [where L = lib0 and r = running_uninstall and e = None
      and r' = "running_uninstall\<lparr>currentStep := 1\<rparr>"
      and ?c1.0 = "Cmd_runStep (step ''Removing Desktop Entry...'' ''rm -f /usr/local/share/applications/tic80.desktop'')"] u
  have c: "logMsg (running_uninstall\<lparr>currentStep := 1\<rparr>) = logMsg running_uninstall"
    by simp
  from log_transcript [where L = lib0 and ?n2.0 = sized2
      and ocs = "[(''a'', None), (''b'', Some ''exit status 1''), (''c'', None)]"]
    sized2_fields(1,2,3) viewport_sound_lib0
  have "\<exists>m0 c0 mf ex. Update2 lib0 sized2 (KeyMsg ''enter'') = Inr (m0, c0) \<and> termContent m0 = [] \<and>
         drive (Update2 lib0) runStepStreamed m0 c0 [(''a'', None), (''b'', Some ''exit status 1''), (''c'', None)]
           = Inr (mf, ex) \<and>
         prefix ex (getSteps2 0) \<and>
         termContent mf = concat (map2 segment ex [(''a'', None), (''b'', Some ''exit status 1''), (''c'', None)])"
    by (simp del: drive.simps)
  then have e: "\<exists>mf ex. drive (Update2 lib0) runStepStreamed running_install2
        (Cmd_Batch [Cmd_Tick, Cmd_runStepStreamed ?s0])
        [(''a'', None), (''b'', Some ''exit status 1''), (''c'', None)] = Inr (mf, ex) \<and>
      prefix ex (getSteps2 0) \<and>
      termContent mf = concat (map2 segment ex [(''a'', None), (''b'', Some ''exit status 1''), (''c'', None)])"
    unfolding enter_install2 by (auto simp del: drive.simps)
  have x: "external (KeyMsg ''tab'')" by simp
  from reachable2_install(2) f sh a fail_install2 g reachable2_unsized sp k x t b viewport_sound_lib0
    sized2_fields(1,2,3) e u c
  show ?thesis by blast
qed

text \<open>
  Claim C2 as stated fails in \<^verbatim>\<open>main.go\<close>: the completion of the first step of Uninstall,
  with the output "removed", appends nothing; the only text of the model stays "type help
  for help", which contains neither the description of the step nor the output.
\<close>

theorem log_transcript_counterexample:
  "Update lib0 running_uninstall
      (runStep (step ''Removing Binary...'' ''rm -f /usr/local/bin/tic80'') (''removed'', None)) =
     Inr (running_uninstall\<lparr>currentStep := 1\<rparr>,
          Cmd_runStep (step ''Removing Desktop Entry...'' ''rm -f /usr/local/share/applications/tic80.desktop'')) \<and>
   logMsg (running_uninstall\<lparr>currentStep := 1\<rparr>) = ''type help for help'' \<and>
   \<not> sublist ''Removing Binary...'' ''type help for help'' \<and>
   \<not> sublist ''removed'' ''type help for help''"
proof -
  have b: "0 \<le> currentStep running_uninstall" "currentStep running_uninstall + 1 < int (length (steps running_uninstall))"
    "length (steps running_uninstall) \<le> 10"
    by (simp_all add: running_uninstall_def menu_uninstall_def initialModel_def getSteps_def)
  have s1: "steps running_uninstall ! Suc 0 =
      step ''Removing Desktop Entry...'' ''rm -f /usr/local/share/applications/tic80.desktop''"
    by (simp add: running_uninstall_def menu_uninstall_def initialModel_def getSteps_def)
  have c0: "currentStep running_uninstall = 0"
    by (simp add: running_uninstall_def menu_uninstall_def initialModel_def)
  have u: "Update lib0 running_uninstall
      (runStep (step ''Removing Binary...'' ''rm -f /usr/local/bin/tic80'') (''removed'', None)) =
     Inr (running_uninstall\<lparr>currentStep := 1\<rparr>,
          Cmd_runStep (step ''Removing Desktop Entry...'' ''rm -f /usr/local/share/applications/tic80.desktop''))"
    using Update_runStep_next [OF b, of "(''removed'', None)" lib0
        "step ''Removing Binary...'' ''rm -f /usr/local/bin/tic80''"]
    by (simp add: s1 c0)
  have l: "logMsg (running_uninstall\<lparr>currentStep := 1\<rparr>) = ''type help for help''"
    by (simp add: running_uninstall_def menu_uninstall_def initialModel_def)
  have n1: "\<not> sublist ''Removing Binary...'' ''type help for help''" by code_simp
  have n2: "\<not> sublist ''removed'' ''type help for help''" by code_simp
  from u l n1 n2 show ?thesis by blast
qed

section \<open>C3: the Run State invariants\<close>

text \<open>
  Claim C3. In every configuration either version reaches from its initial model, by
  any sequence of resize, key, tick and other library messages and of completions of the
  steps in flight with any outcome, the three invariants of the Run State hold: in the
  Menu phase there are no steps and the current index is 0; in the Running phase the
  current index is inside the plan; in the Done phase the current index is the length of
  the plan or an error is stored.
\<close>

theorem reachable_run_state_inv:
  "(reachable L (m, fl) \<longrightarrow> run_state_inv m) \<and> (reachable2 L (m2, fl2) \<longrightarrow> run_state_inv m2)"
proof -
  have a: "run_state_inv m" if "reachable L (m, fl)"
  proof -
    from reachable_inv [OF that] have "config_inv m fl" by simp
    then show ?thesis by (rule config_inv_run_state)
  qed
  have b: "run_state_inv m2" if "reachable2 L (m2, fl2)"
  proof -
    from reachable2_inv [OF that] have "config_inv m2 fl2" by simp
    then show ?thesis by (rule config_inv_run_state)
  qed
  from a b show ?thesis by blast
qed

theorem reachable_run_state_inv_witness:
  "reachable lib0 (menu_uninstall, []) \<and> state menu_uninstall = stateMenu \<and>
   steps menu_uninstall = [] \<and> currentStep menu_uninstall = 0 \<and> run_state_inv menu_uninstall \<and>
   reachable2 lib0 (sized2, []) \<and> state sized2 = stateMenu \<and>
   steps sized2 = [] \<and> currentStep sized2 = 0 \<and> run_state_inv sized2 \<and>
   reachable lib0 (running_uninstall, [step ''Removing Binary...'' ''rm -f /usr/local/bin/tic80'']) \<and>
   state running_uninstall = stateRunning \<and> currentStep running_uninstall = 0 \<and>
   length (steps running_uninstall) = 3 \<and> run_state_inv running_uninstall \<and>
   reachable lib0 (done_uninstall, []) \<and>
   state done_uninstall = stateDone \<and> currentStep done_uninstall = 3 \<and>
   length (steps done_uninstall) = 3 \<and> err done_uninstall = None \<and> run_state_inv done_uninstall \<and>
   reachable2 lib0 (running_install2, [step ''Installing Group Tools...'' DEPS_CMD]) \<and>
   state running_install2 = stateRunning \<and> currentStep running_install2 = 0 \<and>
   length (steps running_install2) = 10 \<and> run_state_inv running_install2 \<and>
   reachable2 lib0 (failed_install2, []) \<and>
   state failed_install2 = stateDone \<and> currentStep failed_install2 = 0 \<and>
   err failed_install2 = Some ''exit status 1'' \<and> run_state_inv failed_install2"
proof -
  have f: "state running_uninstall = stateRunning" "currentStep running_uninstall = 0"
    "length (steps running_uninstall) = 3"
    "state done_uninstall = stateDone" "currentStep done_uninstall = 3"
    "length (steps done_uninstall) = 3" "err done_uninstall = None"
    by (simp_all add: done_uninstall_def running_uninstall_def menu_uninstall_def initialModel_def
        getSteps_2)
  have g: "state running_install2 = stateRunning" "currentStep running_install2 = 0"
    "length (steps running_install2) = 10"
    "state failed_install2 = stateDone" "currentStep failed_install2 = 0"
    "err failed_install2 = Some ''exit status 1''"
    by (simp_all add: failed_install2_def running_install2_fields getSteps2_0_hd)
  from reachable_run_state_inv [where L = lib0 and m = running_uninstall
      and fl = "[step ''Removing Binary...'' ''rm -f /usr/local/bin/tic80'']"
      and ?m2.0 = running_install2 and ?fl2.0 = "[step ''Installing Group Tools...'' DEPS_CMD]"]
    reachable_running reachable2_install(2)
  have a: "run_state_inv running_uninstall" "run_state_inv running_install2" by simp_all
  from reachable_run_state_inv [where L = lib0 and m = done_uninstall and fl = "[]"
      and ?m2.0 = failed_install2 and ?fl2.0 = "[]"]
    reachable_done_uninstall reachable2_install(3)
  have b: "run_state_inv done_uninstall" "run_state_inv failed_install2" by simp_all
  have h: "state menu_uninstall = stateMenu" "steps menu_uninstall = []" "currentStep menu_uninstall = 0"
    "state sized2 = stateMenu" "steps sized2 = []" "currentStep sized2 = 0"
    by (simp_all add: menu_uninstall_def sized2_def initialModel_def initialModel2_def)
  from reachable_run_state_inv [where L = lib0 and m = menu_uninstall and fl = "[]"
      and ?m2.0 = sized2 and ?fl2.0 = "[]"]
    reachable_menu(2) reachable2_install(1)
  have c: "run_state_inv menu_uninstall" "run_state_inv sized2" by simp_all
  from f g h a b c reachable_menu(2) reachable_running reachable_done_uninstall reachable2_install
  show ?thesis by blast
qed

section \<open>C4: the empty plan\<close>




section \<open>C5: the step plan\<close>


section \<open>C6: the quit key\<close>

text \<open>
  Claim C6 as the code has it. In \<^verbatim>\<open>part_000\<close> the keys q and ctrl+c return \<^verbatim>\<open>tea.Quit\<close>
  in every phase, the model unchanged. In \<^verbatim>\<open>main.go\<close> the key switch is entered only in
  the Menu phase, where both keys quit, and in the Done phase, where q quits; in the
  Running phase every key is ignored.
\<close>

theorem quit_key:
  "Update2 L m2 (KeyMsg ''q'') = Inr (m2, Cmd_Quit) \<and>
   Update2 L m2 (KeyMsg ''ctrl+c'') = Inr (m2, Cmd_Quit) \<and>
   (state m = stateMenu \<longrightarrow>
      Update L m (KeyMsg ''q'') = Inr (m, Cmd_Quit) \<and> Update L m (KeyMsg ''ctrl+c'') = Inr (m, Cmd_Quit)) \<and>
   (state m = stateDone \<longrightarrow> Update L m (KeyMsg ''q'') = Inr (m, Cmd_Quit)) \<and>
   (state m = stateRunning \<longrightarrow> Update L m (KeyMsg k) = Inr (m, Cmd_nil))"
  by (simp add: Update_def Update_key_def Update2_def Update2_key_def)

theorem quit_key_witness:
  "Update2 lib0 running_uninstall2 (KeyMsg ''q'') = Inr (running_uninstall2, Cmd_Quit) \<and>
   state menu_uninstall = stateMenu \<and>
   Update lib0 menu_uninstall (KeyMsg ''ctrl+c'') = Inr (menu_uninstall, Cmd_Quit) \<and>
   state running_uninstall = stateRunning \<and>
   Update lib0 running_uninstall (KeyMsg ''ctrl+c'') = Inr (running_uninstall, Cmd_nil) \<and>
   state (running_uninstall\<lparr>state := stateDone\<rparr>) = stateDone \<and>
   Update lib0 (running_uninstall\<lparr>state := stateDone\<rparr>) (KeyMsg ''q'') =
     Inr (running_uninstall\<lparr>state := stateDone\<rparr>, Cmd_Quit)"
  using quit_key [of lib0 running_uninstall2 menu_uninstall]
    quit_key [of lib0 running_uninstall2 running_uninstall "''ctrl+c''"]
    quit_key [of lib0 running_uninstall2 "running_uninstall\<lparr>state := stateDone\<rparr>"]
    menu_uninstall_fields running_uninstall_fields
  by simp

text \<open>
  Claim C6 as stated fails in \<^verbatim>\<open>main.go\<close>: while Uninstall is running, the key q returns
  no command and the program goes on.
\<close>

theorem quit_key_counterexample:
  "Update lib0 running_uninstall (KeyMsg ''q'') = Inr (running_uninstall, Cmd_nil)"
  by (simp add: Update_def Update_key_def running_uninstall_def)

section \<open>C7: the log toggle key\<close>

text \<open>
  Claim C7. In \<^verbatim>\<open>part_000\<close>, in every phase, the toggle keys (tab and space) return the
  model with \<open>showTerm\<close> negated and every other field as it was, and no command.
  \<^verbatim>\<open>main.go\<close> has no viewport and no toggle key: the same keys change nothing there.
\<close>

theorem toggle_key:
  "Update2 L m2 (KeyMsg ''tab'') = Inr (m2\<lparr>showTerm := \<not> showTerm m2\<rparr>, Cmd_nil) \<and>
   Update2 L m2 (KeyMsg '' '') = Inr (m2\<lparr>showTerm := \<not> showTerm m2\<rparr>, Cmd_nil) \<and>
   Update L m (KeyMsg ''tab'') = Inr (m, Cmd_nil) \<and>
   Update L m (KeyMsg '' '') = Inr (m, Cmd_nil)"
  by (simp add: Update_def Update_key_def Update2_def Update2_key_def)

section \<open>C8: the menu cursor\<close>

text \<open>
  Claim C8. In the Menu phase the key up (or k) with the cursor at 0 and the key down
  (or j) with the cursor at the last index leave the cursor, and in \<^verbatim>\<open>main.go\<close> the whole
  model, as it was; in \<^verbatim>\<open>part_000\<close> only the viewport sees the key. So in every reachable
  configuration of either version the cursor is an index of the menu.
\<close>

theorem cursor_clamped:
  "(state m = stateMenu \<and> cursor m = 0 \<and> (key = ''up'' \<or> key = ''k'') \<longrightarrow>
      Update L m (KeyMsg key) = Inr (m, Cmd_nil)) \<and>
   (state m = stateMenu \<and> cursor m = int (length (choices m)) - 1 \<and> (key = ''down'' \<or> key = ''j'') \<longrightarrow>
      Update L m (KeyMsg key) = Inr (m, Cmd_nil)) \<and>
   (state m2 = stateMenu \<and> (cursor m2 = 0 \<and> (key = ''up'' \<or> key = ''k'') \<or>
       cursor m2 = int (length (choices m2)) - 1 \<and> (key = ''down'' \<or> key = ''j'')) \<longrightarrow>
      Update2 L m2 (KeyMsg key) =
        Inr (m2\<lparr>viewport := fst (viewport_Update L (viewport m2) (KeyMsg key))\<rparr>,
             Cmd_Batch [lib_cmd (snd (viewport_Update L (viewport m2) (KeyMsg key)))])) \<and>
   (reachable L (r, fl) \<longrightarrow> 0 \<le> cursor r \<and> cursor r < int (length (choices r))) \<and>
   (reachable2 L (r2, fl2) \<longrightarrow> 0 \<le> cursor r2 \<and> cursor r2 < int (length (choices r2)))"
proof -
  have a: "state m = stateMenu \<and> cursor m = 0 \<and> (key = ''up'' \<or> key = ''k'') \<longrightarrow>
      Update L m (KeyMsg key) = Inr (m, Cmd_nil)"
    by (auto simp: Update_def Update_key_def)
  have b: "state m = stateMenu \<and> cursor m = int (length (choices m)) - 1 \<and> (key = ''down'' \<or> key = ''j'') \<longrightarrow>
      Update L m (KeyMsg key) = Inr (m, Cmd_nil)"
    by (auto simp: Update_def Update_key_def)
  have c: "state m2 = stateMenu \<and> (cursor m2 = 0 \<and> (key = ''up'' \<or> key = ''k'') \<or>
       cursor m2 = int (length (choices m2)) - 1 \<and> (key = ''down'' \<or> key = ''j'')) \<longrightarrow>
      Update2 L m2 (KeyMsg key) =
        Inr (m2\<lparr>viewport := fst (viewport_Update L (viewport m2) (KeyMsg key))\<rparr>,
             Cmd_Batch [lib_cmd (snd (viewport_Update L (viewport m2) (KeyMsg key)))])"
    by (auto simp: Update2_def Update2_key_def Update2_tail_eq)
  have d: "reachable L (r, fl) \<longrightarrow> 0 \<le> cursor r \<and> cursor r < int (length (choices r))"
    using reachable_inv [of L "(r, fl)"] by (auto simp: config_inv_def)
  have e: "reachable2 L (r2, fl2) \<longrightarrow> 0 \<le> cursor r2 \<and> cursor r2 < int (length (choices r2))"
    using reachable2_inv [of L "(r2, fl2)"] by (auto simp: config_inv_def)
  from a b c d e show ?thesis by blast
qed

theorem cursor_clamped_witness:
  "state (initialModel lib0) = stateMenu \<and> cursor (initialModel lib0) = 0 \<and>
   Update lib0 (initialModel lib0) (KeyMsg ''up'') = Inr (initialModel lib0, Cmd_nil) \<and>
   state menu_exit = stateMenu \<and> cursor menu_exit = int (length (choices menu_exit)) - 1 \<and>
   Update lib0 menu_exit (KeyMsg ''down'') = Inr (menu_exit, Cmd_nil) \<and>
   state (initialModel2 lib0) = stateMenu \<and> cursor (initialModel2 lib0) = 0 \<and>
   Update2 lib0 (initialModel2 lib0) (KeyMsg ''k'') =
     Inr ((initialModel2 lib0)\<lparr>viewport := (viewport (initialModel2 lib0))\<lparr>vp_inner := 1\<rparr>\<rparr>,
          Cmd_Batch [Cmd_nil]) \<and>
   reachable lib0 (menu_exit, []) \<and> cursor menu_exit = 3 \<and> length (choices menu_exit) = 4 \<and>
   reachable2 lib0 (initialModel2 lib0, []) \<and>
   cursor (initialModel2 lib0) < int (length (choices (initialModel2 lib0)))"
proof -
  note f = menu_exit_fields
  from cursor_clamped [where m = "initialModel lib0" and key = "''up''" and L = lib0] f
  have a: "Update lib0 (initialModel lib0) (KeyMsg ''up'') = Inr (initialModel lib0, Cmd_nil)"
    by simp
  from cursor_clamped [where m = menu_exit and key = "''down''" and L = lib0] f
  have b: "Update lib0 menu_exit (KeyMsg ''down'') = Inr (menu_exit, Cmd_nil)"
    by simp
  from cursor_clamped [where ?m2.0 = "initialModel2 lib0" and key = "''k''" and L = lib0] f
  have c: "Update2 lib0 (initialModel2 lib0) (KeyMsg ''k'') =
     Inr ((initialModel2 lib0)\<lparr>viewport := (viewport (initialModel2 lib0))\<lparr>vp_inner := 1\<rparr>\<rparr>,
          Cmd_Batch [Cmd_nil])"
    by (simp add: lib0_def initialModel2_def)
  from cursor_clamped [where ?r2.0 = "initialModel2 lib0" and ?fl2.0 = "[]" and L = lib0] r2_init [of lib0]
  have d: "cursor (initialModel2 lib0) < int (length (choices (initialModel2 lib0)))"
    by simp
  have e: "cursor menu_exit = int (length (choices menu_exit)) - 1" by (simp add: f)
  from a b c d e f reachable_menu(3) r2_init [of lib0] show ?thesis by blast
qed

section \<open>C9: the privilege check\<close>

text \<open>
  Claim C9. When the effective user id is not 0, \<open>main\<close> prints the diagnostic and exits
  with status 1, and that is all it does: no program is created from a model and the
  event loop is not run. Whenever the trace of \<open>main\<close> creates the program or runs the
  loop, the effective user id was 0.
\<close>

theorem privilege_check:
  "(euid \<noteq> 0 \<longrightarrow> main L euid r = ([Print root_error], 1) \<and> main2 L euid r = ([Print root_error], 1)) \<and>
   (Run \<in> set (fst (main L euid r)) \<or> NewProgram (initialModel L) \<in> set (fst (main L euid r)) \<longrightarrow> euid = 0) \<and>
   (Run \<in> set (fst (main2 L euid r)) \<or> NewProgram (initialModel2 L) \<in> set (fst (main2 L euid r)) \<longrightarrow> euid = 0)"
  by (auto simp add: main_def main2_def main_body_def split: option.splits)

theorem privilege_check_witness:
  "(1000 :: int) \<noteq> 0 \<and>
   main lib0 1000 None = ([Print root_error], 1) \<and> main2 lib0 1000 None = ([Print root_error], 1) \<and>
   Run \<in> set (fst (main lib0 0 None)) \<and> Run \<in> set (fst (main2 lib0 0 None)) \<and>
   main lib0 0 None = ([NewProgram (initialModel lib0), Run], 0)"
  using privilege_check [of 1000 lib0 None] privilege_check [of 0 lib0 None]
  by (simp add: main_def main2_def main_body_def)

section \<open>C10: the spinner tick\<close>

text \<open>
  Claim C10. A tick never panics and changes no field of the model but the spinner (in
  \<^verbatim>\<open>part_000\<close> the viewport is also given the message, as it is given every message that
  reaches the end of \<^verbatim>\<open>Update\<close>): phase, cursor, steps, current index, log text and stored
  error are as before. Outside the Running phase \<^verbatim>\<open>main.go\<close> returns the model unchanged
  and no command; so does \<^verbatim>\<open>part_000\<close>, its command scheduling nothing, when the library's
  viewport ignores the tick, as a viewport that reacts to keys and the mouse does.
\<close>

theorem tick_frame:
  "(\<exists>m' c. Update L m (TickMsg t) = Inr (m', c) \<and> m' = m\<lparr>spinner := spinner m'\<rparr> \<and>
      state m' = state m \<and> cursor m' = cursor m \<and> steps m' = steps m \<and>
      currentStep m' = currentStep m \<and> logMsg m' = logMsg m \<and> err m' = err m) \<and>
   (state m \<noteq> stateRunning \<longrightarrow> Update L m (TickMsg t) = Inr (m, Cmd_nil)) \<and>
   (\<exists>m' c. Update2 L m2 (TickMsg t) = Inr (m', c) \<and>
      m' = m2\<lparr>spinner := spinner m', viewport := viewport m'\<rparr> \<and>
      state m' = state m2 \<and> cursor m' = cursor m2 \<and> steps m' = steps m2 \<and>
      currentStep m' = currentStep m2 \<and> logMsg m' = logMsg m2 \<and> termContent m' = termContent m2 \<and>
      err m' = err m2) \<and>
   (state m2 \<noteq> stateRunning \<and> viewport_Update L (viewport m2) (TickMsg t) = (viewport m2, None) \<longrightarrow>
      (\<exists>c. Update2 L m2 (TickMsg t) = Inr (m2, c) \<and> actions c = []))"
proof -
  have a: "\<exists>m' c. Update L m (TickMsg t) = Inr (m', c) \<and> m' = m\<lparr>spinner := spinner m'\<rparr> \<and>
      state m' = state m \<and> cursor m' = cursor m \<and> steps m' = steps m \<and>
      currentStep m' = currentStep m \<and> logMsg m' = logMsg m \<and> err m' = err m"
    by (cases "spinner_Update L (spinner m) (TickMsg t)") (simp add: Update_def)
  have b: "state m \<noteq> stateRunning \<longrightarrow> Update L m (TickMsg t) = Inr (m, Cmd_nil)"
    by (simp add: Update_def)
  have c: "\<exists>m' c. Update2 L m2 (TickMsg t) = Inr (m', c) \<and>
      m' = m2\<lparr>spinner := spinner m', viewport := viewport m'\<rparr> \<and>
      state m' = state m2 \<and> cursor m' = cursor m2 \<and> steps m' = steps m2 \<and>
      currentStep m' = currentStep m2 \<and> logMsg m' = logMsg m2 \<and> termContent m' = termContent m2 \<and>
      err m' = err m2"
    by (cases "spinner_Update L (spinner m2) (TickMsg t)") (simp add: Update2_def Update2_tail_eq)
  have d: "state m2 \<noteq> stateRunning \<and> viewport_Update L (viewport m2) (TickMsg t) = (viewport m2, None) \<longrightarrow>
      (\<exists>c. Update2 L m2 (TickMsg t) = Inr (m2, c) \<and> actions c = [])"
    by (simp add: Update2_def Update2_tail_eq)
  from a b c d show ?thesis by blast
qed

theorem tick_frame_witness:
  "state menu_uninstall2 \<noteq> stateRunning \<and>
   viewport_Update lib0 (viewport menu_uninstall2) (TickMsg 7) = (viewport menu_uninstall2, None) \<and>
   Update2 lib0 menu_uninstall2 (TickMsg 7) = Inr (menu_uninstall2, Cmd_Batch [Cmd_nil]) \<and>
   actions (Cmd_Batch [Cmd_nil]) = [] \<and>
   state menu_uninstall \<noteq> stateRunning \<and>
   Update lib0 menu_uninstall (TickMsg 7) = Inr (menu_uninstall, Cmd_nil) \<and>
   Update lib0 running_uninstall (TickMsg 7) =
     Inr (running_uninstall\<lparr>spinner := (spinner running_uninstall)\<lparr>sp_inner := 1\<rparr>\<rparr>, Cmd_lib 1)"
  using tick_frame [of lib0 menu_uninstall 7 menu_uninstall2]
  by (simp add: Update_def Update2_def Update2_tail_eq menu_uninstall_def menu_uninstall2_def
      running_uninstall_def initialModel_def initialModel2_def lib0_def)

end
